theory Spec2Isabelle
  imports Complex_Main
begin

section \<open>Strings and numbers as the TypeScript code uses them\<close>

text \<open>
  JavaScript strings are modelled as HOL strings over the 8-bit character range, JavaScript
  numbers that hold millisecond counts, identifiers and lengths as \<open>int\<close>. The only place
  where the code leaves the integers is the reading-rate estimate of
  \<open>src/generator/narration.ts\<close>, modelled over the rationals.
\<close>

definition isSpace :: "char \<Rightarrow> bool" where
  \<comment> \<open>the characters matched by the regular expression class \<open>\s\<close> in the 8-bit range\<close>
  "isSpace c = (of_char c \<in> {9, 10, 11, 12, 13, 32, 160 :: nat})"

definition lowerChar :: "char \<Rightarrow> char" where
  "lowerChar c =
     (let n = (of_char c :: nat)
      in if (65 \<le> n \<and> n \<le> 90) \<or> (192 \<le> n \<and> n \<le> 222 \<and> n \<noteq> 215)
         then char_of (n + 32) else c)"

definition toLowerCase :: "string \<Rightarrow> string" where
  "toLowerCase s = map lowerChar s"

definition startsWith :: "string \<Rightarrow> string \<Rightarrow> bool" where
  "startsWith s p = (take (length p) s = p)"

definition endsWith :: "string \<Rightarrow> string \<Rightarrow> bool" where
  "endsWith s p = (length p \<le> length s \<and> drop (length s - length p) s = p)"

definition substring :: "string \<Rightarrow> nat \<Rightarrow> nat \<Rightarrow> string" where
  \<comment> \<open>\<open>s.substring(a, b)\<close> for \<open>a \<le> b\<close>\<close>
  "substring s a b = take (b - a) (drop a s)"

text \<open>
  \<open>s.split(/\s+/)\<close>: the pieces between maximal runs of white space. A string that starts
  or ends with white space yields an empty first or last piece, and the empty string
  yields one empty piece. The flag says that the run of white space just read has already
  closed a piece.
\<close>

fun splitWs :: "bool \<Rightarrow> string \<Rightarrow> string \<Rightarrow> string list" where
  "splitWs inSep cur [] = [rev cur]"
| "splitWs inSep cur (c # cs) =
     (if isSpace c
      then (if inSep then splitWs True cur cs else rev cur # splitWs True [] cs)
      else splitWs False (c # cur) cs)"

definition splitWhitespace :: "string \<Rightarrow> string list" where
  "splitWhitespace s = splitWs False [] s"

definition digitChar :: "nat \<Rightarrow> char" where
  "digitChar d = char_of (48 + d)"

function showNat :: "nat \<Rightarrow> string" where
  "showNat n = (if n < 10 then [digitChar n] else showNat (n div 10) @ [digitChar (n mod 10)])"
  by pat_completeness auto
termination
  by (relation "measure id") auto

declare showNat.simps [simp del]

definition showInt :: "int \<Rightarrow> string" where
  \<comment> \<open>\<open>n.toString()\<close> on an integer-valued number\<close>
  "showInt n = (if n < 0 then CHR ''-'' # showNat (nat (- n)) else showNat (nat n))"

definition padStart :: "nat \<Rightarrow> char \<Rightarrow> string \<Rightarrow> string" where
  "padStart n c s = replicate (n - length s) c @ s"

definition jsRem :: "int \<Rightarrow> int \<Rightarrow> int" where
  \<comment> \<open>the \<open>%\<close> operator: the remainder carries the sign of the dividend\<close>
  "jsRem a b = sgn a * (\<bar>a\<bar> mod \<bar>b\<bar>)"

fun joinWith :: "string \<Rightarrow> string list \<Rightarrow> string" where
  "joinWith sep [] = []"
| "joinWith sep [l] = l"
| "joinWith sep (l # m # ls) = l @ sep @ joinWith sep (m # ls)"

definition pathJoin :: "string \<Rightarrow> string \<Rightarrow> string" where
  \<comment> \<open>\<open>path.join(a, b)\<close> on two segments that need no normalisation\<close>
  "pathJoin a b = a @ ''/'' @ b"

section \<open>Data model (types.ts)\<close>

type_synonym Page = nat
type_synonym Handle = nat

record StepDetails =
  d_ref :: "string option"
  d_selector :: "string option"
  d_value :: "string option"
  d_url :: "string option"
  d_key :: "string option"
  d_fromRef :: "string option"
  d_toRef :: "string option"
  d_filePath :: "string option"
  d_fileName :: "string option"
  d_type :: "string option"
  d_expected :: "string option"
  d_actual :: "string option"
  d_message :: "string option"
  d_direction :: "string option"
  d_amount :: "int option"
  d_condition :: "string option"

definition noDetails :: StepDetails where
  \<comment> \<open>the object literal \<open>{}\<close>\<close>
  "noDetails = \<lparr>d_ref = None, d_selector = None, d_value = None, d_url = None, d_key = None,
     d_fromRef = None, d_toRef = None, d_filePath = None, d_fileName = None, d_type = None,
     d_expected = None, d_actual = None, d_message = None, d_direction = None,
     d_amount = None, d_condition = None\<rparr>"

record StepEvidence =
  screenshotPath :: "string option"
  beforeSnapshot :: "string option"
  afterSnapshot :: "string option"

text \<open>A step before \<open>addStep\<close> has given it its id: \<open>Omit<DemoStep, 'id'>\<close>.\<close>

record PartialStep =
  action :: string
  description :: string
  timestamp :: int
  duration :: int
  videoStartMs :: "int option"
  videoEndMs :: "int option"
  details :: StepDetails
  evidence :: StepEvidence
  success :: bool
  error :: "string option"

record DemoStep = PartialStep +
  step_id :: int

datatype Status = running | completed | failed

record DemoSessionOptions =
  video :: bool
  trace :: bool
  screenshotOnStep :: bool
  outputDir :: string
  storageState :: "string option"
  headless :: bool
  viewport :: "int \<times> int"

text \<open>
  \<open>pages\<close> is a JavaScript \<open>Map\<close>: it iterates in insertion order, so it is an association
  list with the oldest entry first.
\<close>

record DemoSession =
  session_id :: string
  title :: string
  startUrl :: string
  startedAt :: int
  status :: Status
  options :: DemoSessionOptions
  steps :: "DemoStep list"
  videoStartTime :: "int option"
  browser :: "Handle option"
  browserContext :: "Handle option"
  page :: "Page option"
  pages :: "(int \<times> Page) list"
  activePageId :: int
  nextPageId :: int

section \<open>Narration text (stepToNarration)\<close>

definition truthy :: "string option \<Rightarrow> bool" where
  \<comment> \<open>a string-valued property in a condition: defined and not empty\<close>
  "truthy v = (case v of None \<Rightarrow> False | Some s \<Rightarrow> s \<noteq> [])"

definition stepToNarration :: "DemoStep \<Rightarrow> string" where
  \<open>stepToNarration step =
     (let desc = description step; det = details step in
      if action step = ''navigate'' then
        (if truthy (d_url det) then ''First, let's navigate to the page. '' @ desc else desc)
      else if action step = ''click'' then
        ''Now, '' @ (if startsWith (toLowerCase desc) ''click'' then desc
                     else ''click to '' @ toLowerCase desc)
      else if action step = ''fill'' then
        (if truthy (d_value det) then
           (let v = the (d_value det);
                maskedValue = (if length v > 20 then substring v 0 20 @ ''...'' else v)
            in desc @ ''. I'll type "'' @ maskedValue @ ''".'')
         else desc)
      else if action step = ''select'' then
        (if truthy (d_value det) then desc @ ''. I'll select "'' @ the (d_value det) @ ''".''
         else desc)
      else if action step = ''scroll'' then
        ''Let me scroll '' @ (if truthy (d_direction det) then the (d_direction det) else ''down'')
          @ '' to show you more.''
      else if action step = ''wait'' then ''I'll wait for the page to load.''
      else if action step = ''screenshot'' then ''''
      else desc)\<close>

section \<open>Timed narration from the video timeline (generateTimedNarration of the subtitle path)\<close>

record NarrationSegment =
  stepId :: int
  startMs :: int
  endMs :: int
  durationMs :: int
  seg_text :: string

record NarrationData =
  nd_title :: string
  totalDurationMs :: int
  segments :: "NarrationSegment list"

definition introText :: "DemoSession \<Rightarrow> string" where
  "introText session = ''Welcome! In this tutorial, I'll show you how to ''
     @ toLowerCase (title session) @ ''. Let's get started.''"

definition outroText :: "DemoSession \<Rightarrow> string" where
  "outroText session = ''And that's it! You've successfully completed ''
     @ toLowerCase (title session) @ ''. Thanks for watching!''"

definition lastEndMs :: "NarrationSegment list \<Rightarrow> int \<Rightarrow> int" where
  \<comment> \<open>\<open>segments[segments.length - 1]?.endMs ?? dflt\<close>\<close>
  "lastEndMs segs dflt = (if segs = [] then dflt else endMs (last segs))"

definition stepSegment :: "NarrationSegment list \<Rightarrow> DemoStep \<Rightarrow> NarrationSegment" where
  "stepSegment segs step =
     (let start = (case videoStartMs step of Some v \<Rightarrow> v | None \<Rightarrow> lastEndMs segs 2000);
          end = (case videoEndMs step of Some e \<Rightarrow> e | None \<Rightarrow> start + duration step)
      in \<lparr>stepId = step_id step, startMs = start, endMs = end, durationMs = end - start,
          seg_text = stepToNarration step\<rparr>)"

text \<open>The loop over \<open>session.steps\<close>; \<open>segs\<close> is the array built so far.\<close>

fun pushStepSegments :: "NarrationSegment list \<Rightarrow> DemoStep list \<Rightarrow> NarrationSegment list" where
  "pushStepSegments segs [] = segs"
| "pushStepSegments segs (step # rest) =
     (if stepToNarration step \<noteq> []
      then pushStepSegments (segs @ [stepSegment segs step]) rest
      else pushStepSegments segs rest)"

definition sumDurations :: "DemoStep list \<Rightarrow> int" where
  \<comment> \<open>\<open>steps.reduce((sum, s) => sum + s.duration, 0)\<close>\<close>
  "sumDurations ss = foldl (\<lambda>sum s. sum + duration s) 0 ss"

definition sessionTotalDurationMs :: "DemoSession \<Rightarrow> int" where
  "sessionTotalDurationMs session =
     (case (if steps session = [] then None else videoEndMs (last (steps session))) of
        Some e \<Rightarrow> e
      | None \<Rightarrow> sumDurations (steps session) + 5000)"

definition generateTimedNarration :: "DemoSession \<Rightarrow> NarrationData" where
  "generateTimedNarration session =
     (let total = sessionTotalDurationMs session;
          intro = \<lparr>stepId = 0, startMs = 0, endMs = 2000, durationMs = 2000,
                   seg_text = introText session\<rparr>;
          segs = pushStepSegments [intro] (steps session);
          outroStart = lastEndMs segs (total - 3000);
          outro = \<lparr>stepId = - 1, startMs = outroStart, endMs = total,
                   durationMs = total - outroStart, seg_text = outroText session\<rparr>
      in \<lparr>nd_title = title session, totalDurationMs = total, segments = segs @ [outro]\<rparr>)"

section \<open>Subtitle encoders\<close>

definition formatSrtTime :: "int \<Rightarrow> string" where
  "formatSrtTime ms =
     (let hours = ms div 3600000;
          minutes = jsRem ms 3600000 div 60000;
          seconds = jsRem ms 60000 div 1000;
          milliseconds = jsRem ms 1000
      in padStart 2 CHR ''0'' (showInt hours) @ '':'' @ padStart 2 CHR ''0'' (showInt minutes)
         @ '':'' @ padStart 2 CHR ''0'' (showInt seconds) @ '','' @ padStart 3 CHR ''0'' (showInt milliseconds))"

definition replaceFirst :: "char \<Rightarrow> char \<Rightarrow> string \<Rightarrow> string" where
  \<comment> \<open>\<open>s.replace(a, b)\<close> with one-character strings: the first occurrence only\<close>
  "replaceFirst a b s = takeWhile (\<lambda>c. c \<noteq> a) s
     @ (case dropWhile (\<lambda>c. c \<noteq> a) s of [] \<Rightarrow> [] | _ # r \<Rightarrow> b # r)"

definition srtCue :: "nat \<times> NarrationSegment \<Rightarrow> string list" where
  "srtCue c = (case c of (index, item) \<Rightarrow>
     [showNat (index + 1),
      formatSrtTime (startMs item) @ '' --> '' @ formatSrtTime (endMs item),
      seg_text item, ''''])"

definition vttCue :: "nat \<times> NarrationSegment \<Rightarrow> string list" where
  "vttCue c = (case c of (index, item) \<Rightarrow>
     [showNat (index + 1),
      replaceFirst CHR '','' CHR ''.'' (formatSrtTime (startMs item)) @ '' --> ''
        @ replaceFirst CHR '','' CHR ''.'' (formatSrtTime (endMs item)),
      seg_text item, ''''])"

definition generateSrt :: "DemoSession \<Rightarrow> string" where
  "generateSrt session =
     joinWith ''\<newline>'' (concat (map srtCue (enumerate 0 (segments (generateTimedNarration session)))))"

definition generateVtt :: "DemoSession \<Rightarrow> string" where
  "generateVtt session =
     joinWith ''\<newline>'' ([''WEBVTT'', ''''] @
       concat (map vttCue (enumerate 0 (segments (generateTimedNarration session)))))"

text \<open>
  The time range of every cue is the pair that the encoders hand to \<open>formatSrtTime\<close>.
  The ranges are non-decreasing and non-overlapping when no cue ends before it starts and
  each cue starts no earlier than the one before it ends.
\<close>

fun cuesOrdered :: "NarrationSegment list \<Rightarrow> bool" where
  "cuesOrdered [] = True"
| "cuesOrdered [a] = (startMs a \<le> endMs a)"
| "cuesOrdered (a # b # rest) =
     (startMs a \<le> endMs a \<and> endMs a \<le> startMs b \<and> cuesOrdered (b # rest))"

text \<open>
  The same condition on the step log. The range of a narrated step is its recorded video
  offsets; a step without a recorded start takes \<open>prev\<close>, the end of the cue before it, and
  a step without a recorded end takes its start plus its duration. Every narrated step
  has to start no earlier than \<open>prev\<close> and to end no earlier than it starts.
\<close>

fun rangesOrdered :: "int \<Rightarrow> DemoStep list \<Rightarrow> bool" where
  "rangesOrdered prev [] = True"
| "rangesOrdered prev (step # rest) =
     (if stepToNarration step \<noteq> []
      then (let start = (case videoStartMs step of Some v \<Rightarrow> v | None \<Rightarrow> prev);
                end = (case videoEndMs step of Some e \<Rightarrow> e | None \<Rightarrow> start + duration step)
            in prev \<le> start \<and> start \<le> end \<and> rangesOrdered end rest)
      else rangesOrdered prev rest)"

section \<open>Timed narration with estimated durations (generateTimedNarration of src/generator/narration.ts)\<close>

record TimedNarrationItem =
  t_stepId :: int
  t_timestamp :: int
  t_duration :: int
  t_text :: string

definition wordCount :: "string \<Rightarrow> nat" where
  \<comment> \<open>\<open>narration.split(/\s+/).length\<close>\<close>
  "wordCount narration = length (splitWhitespace narration)"

definition estimatedDuration :: "string \<Rightarrow> rat" where
  \<comment> \<open>\<open>Math.max(2000, (wordCount / 150) * 60 * 1000)\<close>\<close>
  "estimatedDuration narration = max 2000 ((of_nat (wordCount narration) / 150) * 60 * 1000)"

text \<open>
  The loop over \<open>session.steps\<close>: \<open>cumulativeTime\<close> is the clock, and the result is the
  list of pushed items together with the clock after the last step.
\<close>

fun timedSteps :: "int \<Rightarrow> DemoStep list \<Rightarrow> TimedNarrationItem list \<times> int" where
  "timedSteps cumulativeTime [] = ([], cumulativeTime)"
| "timedSteps cumulativeTime (step # rest) =
     (if stepToNarration step \<noteq> []
      then (let item = \<lparr>t_stepId = step_id step, t_timestamp = cumulativeTime,
                         t_duration = round (estimatedDuration (stepToNarration step)),
                         t_text = stepToNarration step\<rparr>;
                r = timedSteps (cumulativeTime + (duration step + 500)) rest
            in (item # fst r, snd r))
      else timedSteps cumulativeTime rest)"

definition generateTimedNarrationEstimated :: "DemoSession \<Rightarrow> TimedNarrationItem list" where
  "generateTimedNarrationEstimated session =
     (let intro = \<lparr>t_stepId = 0, t_timestamp = 0, t_duration = 3000, t_text = introText session\<rparr>;
          r = timedSteps 3000 (steps session);
          outro = \<lparr>t_stepId = - 1, t_timestamp = snd r, t_duration = 4000,
                   t_text = outroText session\<rparr>
      in intro # fst r @ [outro])"

definition narratedSteps :: "DemoSession \<Rightarrow> DemoStep list" where
  \<comment> \<open>the steps whose derived narration text is not empty, in log order\<close>
  "narratedSteps session = filter (\<lambda>s. stepToNarration s \<noteq> []) (steps session)"

text \<open>
  The number of words of a text, counted without \<open>split\<close>: a word is a maximal run of
  characters that are not white space, and \<open>inWord\<close> says that the character before the
  rest is part of a word.
\<close>

fun wordsFrom :: "bool \<Rightarrow> string \<Rightarrow> nat" where
  "wordsFrom inWord [] = 0"
| "wordsFrom inWord (c # cs) =
     (if isSpace c then wordsFrom False cs
      else (if inWord then 0 else 1) + wordsFrom True cs)"

definition numberOfWords :: "string \<Rightarrow> nat" where
  "numberOfWords s = wordsFrom False s"

definition trimmed :: "string \<Rightarrow> bool" where
  \<comment> \<open>a text that is not empty and neither starts nor ends with white space\<close>
  "trimmed s = (s \<noteq> [] \<and> \<not> isSpace (hd s) \<and> \<not> isSpace (last s))"

section \<open>Session store (session/manager.ts)\<close>

text \<open>
  Session objects are shared by reference between the module variable \<open>currentSession\<close>
  and the callers that hold them, so the store keeps them in a heap. Everything outside the
  process is an oracle of the world: \<open>clock\<close> lists the successive readings of the system
  time, \<open>fault\<close> says which external calls (browser driver, file system) raise and with
  which message, \<open>uuids\<close> are the identifiers handed out by \<open>randomUUID\<close>.
\<close>

datatype exn =
    NoActiveSession
  | PageNotAvailable
  | ContextNotAvailable
  | TabNotFound "int option"
  | CannotCloseLastTab
  | ExtError string

definition message :: "exn \<Rightarrow> string" where
  \<comment> \<open>\<open>e instanceof Error ? e.message : String(e)\<close>\<close>
  "message e = (case e of
       NoActiveSession \<Rightarrow> ''No active demo session. Call demosmith_start first.''
     | PageNotAvailable \<Rightarrow> ''Session page is not available.''
     | ContextNotAvailable \<Rightarrow> ''Browser context is not available''
     | TabNotFound k \<Rightarrow> ''Tab with id '' @ (case k of None \<Rightarrow> ''undefined'' | Some i \<Rightarrow> showInt i)
         @ '' not found''
     | CannotCloseLastTab \<Rightarrow> ''Cannot close the last tab''
     | ExtError m \<Rightarrow> m)"

datatype ExtCall =
    ChromiumLaunch
  | Mkdir string
  | NewContext
  | TracingStart
  | TracingStop
  | NewPage
  | Goto Page string
  | Screenshot Page string
  | ClosePage Page
  | BringToFront Page
  | VideoPath Page
  | ContextClose
  | BrowserClose
  | FindElementByRef Page string
  | ScrollIntoViewIfNeeded Page string
  | MouseWheel Page int int

record World =
  sessions :: "nat \<Rightarrow> DemoSession"
  nextRef :: nat
  currentSession :: "nat option"
  clock :: "nat \<Rightarrow> int"
  ticks :: nat
  fault :: "ExtCall \<Rightarrow> string option"
  nextHandle :: nat
  uuids :: "nat \<Rightarrow> string"
  tmpdir :: string

definition dateNow :: "World \<Rightarrow> int \<times> World" where
  \<comment> \<open>\<open>Date.now()\<close> and \<open>new Date()\<close>: the next reading of the clock\<close>
  "dateNow w = (clock w (ticks w), w\<lparr>ticks := Suc (ticks w)\<rparr>)"

definition extCall :: "ExtCall \<Rightarrow> World \<Rightarrow> exn + unit" where
  "extCall c w = (case fault w c of Some m \<Rightarrow> Inl (ExtError m) | None \<Rightarrow> Inr ())"

definition freshHandle :: "World \<Rightarrow> Handle \<times> World" where
  "freshHandle w = (nextHandle w, w\<lparr>nextHandle := Suc (nextHandle w)\<rparr>)"

definition updSession :: "nat \<Rightarrow> (DemoSession \<Rightarrow> DemoSession) \<Rightarrow> World \<Rightarrow> World" where
  \<comment> \<open>a mutation of the session object behind reference \<open>r\<close>\<close>
  "updSession r f w = w\<lparr>sessions := (sessions w)(r := f (sessions w r))\<rparr>"

fun mapSet :: "int \<Rightarrow> Page \<Rightarrow> (int \<times> Page) list \<Rightarrow> (int \<times> Page) list" where
  \<comment> \<open>\<open>Map.set\<close>: an existing key keeps its place, a new key goes last\<close>
  "mapSet k v [] = [(k, v)]"
| "mapSet k v (e # es) = (if fst e = k then (k, v) # es else e # mapSet k v es)"

definition mapDelete :: "int \<Rightarrow> (int \<times> Page) list \<Rightarrow> (int \<times> Page) list" where
  "mapDelete k m = filter (\<lambda>e. fst e \<noteq> k) m"

definition mapGet :: "(int \<times> Page) list \<Rightarrow> int \<Rightarrow> Page option" where
  "mapGet m k = map_of m k"

definition pageIds :: "DemoSession \<Rightarrow> int list" where
  \<comment> \<open>\<open>Array.from(session.pages.keys())\<close>\<close>
  "pageIds session = map fst (pages session)"

definition numTruthy :: "int option \<Rightarrow> bool" where
  \<comment> \<open>a number-valued property in a condition: defined and not zero\<close>
  "numTruthy v = (case v of None \<Rightarrow> False | Some n \<Rightarrow> n \<noteq> 0)"

subsection \<open>browser.ts\<close>

definition andThen :: "(exn + 'a) \<times> 's \<Rightarrow> ('a \<Rightarrow> 's \<Rightarrow> (exn + 'b) \<times> 's) \<Rightarrow> (exn + 'b) \<times> 's" where
  \<comment> \<open>\<open>const x = await m; ...\<close>: an exception of \<open>m\<close> ends the function\<close>
  "andThen m f = (case m of (Inl e, w) \<Rightarrow> (Inl e, w) | (Inr x, w) \<Rightarrow> f x w)"

definition call :: "ExtCall \<Rightarrow> World \<Rightarrow> (exn + unit) \<times> World" where
  "call c w = (extCall c w, w)"

definition callIf :: "bool \<Rightarrow> ExtCall \<Rightarrow> World \<Rightarrow> (exn + unit) \<times> World" where
  "callIf b c w = (if b then call c w else (Inr (), w))"

definition launchBrowser :: "DemoSessionOptions \<Rightarrow> World \<Rightarrow> (exn + Handle \<times> Handle \<times> Page) \<times> World" where
  "launchBrowser opts w =
     andThen (call ChromiumLaunch w) (\<lambda>_ w.
     andThen (Inr (fst (freshHandle w)), snd (freshHandle w)) (\<lambda>browser w.
     andThen (call (Mkdir (outputDir opts)) w) (\<lambda>_ w.
     andThen (call (Mkdir (pathJoin (outputDir opts) ''assets'')) w) (\<lambda>_ w.
     andThen (callIf (video opts) (Mkdir (pathJoin (outputDir opts) ''videos'')) w) (\<lambda>_ w.
     andThen (call NewContext w) (\<lambda>_ w.
     andThen (Inr (fst (freshHandle w)), snd (freshHandle w)) (\<lambda>ctx w.
     andThen (callIf (trace opts) TracingStart w) (\<lambda>_ w.
     andThen (call NewPage w) (\<lambda>_ w.
     andThen (Inr (fst (freshHandle w)), snd (freshHandle w)) (\<lambda>pg w.
       (Inr (browser, ctx, pg), w)))))))))))"

definition closeBrowser :: "DemoSession \<Rightarrow> World \<Rightarrow> (exn + unit) \<times> World" where
  \<comment> \<open>the returned video path is not used by the session store and is left out\<close>
  "closeBrowser session w =
     (if browserContext session = None \<or> browser session = None then (Inr (), w)
      else
        andThen (callIf (trace (options session)) TracingStop w) (\<lambda>_ w.
        andThen (if video (options session) \<and> page session \<noteq> None
                 then call (VideoPath (the (page session))) w else (Inr (), w)) (\<lambda>_ w.
        andThen (call ContextClose w) (\<lambda>_ w.
        call BrowserClose w))))"

subsection \<open>manager.ts\<close>

record StartSessionInput =
  in_url :: string
  in_title :: string
  in_outputDir :: "string option"
  in_video :: "bool option"
  in_trace :: "bool option"
  in_screenshotOnStep :: "bool option"
  in_storageState :: "string option"
  in_headless :: "bool option"
  in_viewport :: "(int \<times> int) option"

definition orElse :: "'a option \<Rightarrow> 'a \<Rightarrow> 'a" where
  \<comment> \<open>the \<open>??\<close> operator\<close>
  "orElse v d = (case v of None \<Rightarrow> d | Some x \<Rightarrow> x)"

definition endSession :: "World \<Rightarrow> (exn + nat option) \<times> World" where
  "endSession w =
     (case currentSession w of None \<Rightarrow> (Inr None, w)
      | Some r \<Rightarrow>
        let w1 = updSession r (\<lambda>s. s\<lparr>status := completed\<rparr>) w in
        andThen (closeBrowser (sessions w1 r) w1) (\<lambda>_ w2.
          let w3 = updSession r (\<lambda>s. s\<lparr>browser := None, browserContext := None, page := None,
                                        pages := []\<rparr>) w2
          in (Inr (Some r), w3\<lparr>currentSession := None\<rparr>)))"

definition startSession :: "StartSessionInput \<Rightarrow> World \<Rightarrow> (exn + nat) \<times> World" where
  "startSession input w0 =
     andThen (if currentSession w0 \<noteq> None then endSession w0 else (Inr None, w0)) (\<lambda>_ w1.
        let sessionId = take 8 (uuids w1 (nextRef w1));
            defaultOutputDir = pathJoin (pathJoin (tmpdir w1) ''demosmith'') sessionId;
            opts = \<lparr>video = orElse (in_video input) True, trace = orElse (in_trace input) True,
                     screenshotOnStep = orElse (in_screenshotOnStep input) True,
                     outputDir = orElse (in_outputDir input) defaultOutputDir,
                     storageState = in_storageState input,
                     headless = orElse (in_headless input) False,
                     viewport = orElse (in_viewport input) (1280, 720)\<rparr>;
            (started, w2) = dateNow w1;
            (videoStart, w3) = dateNow w2;
            session = \<lparr>session_id = sessionId, title = in_title input, startUrl = in_url input,
                        startedAt = started, status = running, options = opts, steps = [],
                        videoStartTime = Some videoStart, browser = None, browserContext = None,
                        page = None, pages = [], activePageId = 0, nextPageId = 1\<rparr>;
            r = nextRef w3;
            w4 = w3\<lparr>sessions := (sessions w3)(r := session), nextRef := Suc r\<rparr>
        in andThen (launchBrowser opts w4) (\<lambda>(b, c, pg) w5.
             let w6 = updSession r (\<lambda>s. s\<lparr>browser := Some b, browserContext := Some c,
                                           page := Some pg, pages := mapSet 0 pg (pages s)\<rparr>) w5
             in andThen (call (Goto pg (in_url input)) w6) (\<lambda>_ w7.
                  (Inr r, w7\<lparr>currentSession := Some r\<rparr>))))"

definition getSession :: "World \<Rightarrow> nat option" where
  "getSession w = currentSession w"

definition requireSession :: "World \<Rightarrow> exn + nat" where
  "requireSession w =
     (case currentSession w of None \<Rightarrow> Inl NoActiveSession
      | Some r \<Rightarrow> (if page (sessions w r) = None then Inl PageNotAvailable else Inr r))"

definition withId :: "PartialStep \<Rightarrow> int \<Rightarrow> DemoStep" where
  \<comment> \<open>\<open>{ ...step, id }\<close>\<close>
  "withId step n = \<lparr>action = action step, description = description step,
     timestamp = timestamp step, duration = duration step, videoStartMs = videoStartMs step,
     videoEndMs = videoEndMs step, details = details step, evidence = evidence step,
     success = success step, error = error step, step_id = n\<rparr>"

definition addStep :: "PartialStep \<Rightarrow> World \<Rightarrow> (exn + DemoStep) \<times> World" where
  "addStep step w =
     (case requireSession w of Inl e \<Rightarrow> (Inl e, w)
      | Inr r \<Rightarrow>
        let fullStep = withId step (int (length (steps (sessions w r))) + 1)
        in (Inr fullStep, updSession r (\<lambda>s. s\<lparr>steps := steps s @ [fullStep]\<rparr>) w))"

definition newTab :: "string option \<Rightarrow> World \<Rightarrow> (exn + int \<times> Page) \<times> World" where
  "newTab url w =
     (case requireSession w of Inl e \<Rightarrow> (Inl e, w)
      | Inr r \<Rightarrow>
        if browserContext (sessions w r) = None then (Inl ContextNotAvailable, w)
        else andThen (call NewPage w) (\<lambda>_ w0.
            let (pg, w1) = freshHandle w0;
                pageId = nextPageId (sessions w1 r);
                w2 = updSession r (\<lambda>s. s\<lparr>nextPageId := nextPageId s + 1\<rparr>) w1;
                w3 = updSession r (\<lambda>s. s\<lparr>pages := mapSet pageId pg (pages s)\<rparr>) w2
            in andThen (if truthy url then call (Goto pg (the url)) w3 else (Inr (), w3)) (\<lambda>_ w4.
                 (Inr (pageId, pg), w4))))"

definition switchTab :: "int option \<Rightarrow> World \<Rightarrow> (exn + Page) \<times> World" where
  \<comment> \<open>the argument is \<open>None\<close> when the caller passes \<open>undefined\<close>\<close>
  "switchTab pageId w =
     (case requireSession w of Inl e \<Rightarrow> (Inl e, w)
      | Inr r \<Rightarrow>
        (case (case pageId of None \<Rightarrow> None | Some k \<Rightarrow> mapGet (pages (sessions w r)) k) of
           None \<Rightarrow> (Inl (TabNotFound pageId), w)
         | Some pg \<Rightarrow>
           let w1 = updSession r (\<lambda>s. s\<lparr>activePageId := the pageId, page := Some pg\<rparr>) w
           in andThen (call (BringToFront pg) w1) (\<lambda>_ w2. (Inr pg, w2))))"

definition closeTab :: "int \<Rightarrow> World \<Rightarrow> (exn + unit) \<times> World" where
  "closeTab pageId w =
     (case requireSession w of Inl e \<Rightarrow> (Inl e, w)
      | Inr r \<Rightarrow>
        (case mapGet (pages (sessions w r)) pageId of
           None \<Rightarrow> (Inl (TabNotFound (Some pageId)), w)
         | Some pg \<Rightarrow>
           if length (pages (sessions w r)) = 1 then (Inl CannotCloseLastTab, w)
           else andThen (call (ClosePage pg) w) (\<lambda>_ w0.
              let w1 = updSession r (\<lambda>s. s\<lparr>pages := mapDelete pageId (pages s)\<rparr>) w0
              in if activePageId (sessions w1 r) = pageId
                 then (let remainingIds = pageIds (sessions w1 r)
                       in andThen (switchTab (case remainingIds of [] \<Rightarrow> None | k # _ \<Rightarrow> Some k) w1)
                            (\<lambda>_ w2. (Inr (), w2)))
                 else (Inr (), w1))))"

record TabInfo =
  tab_pageId :: int
  tab_isActive :: bool

definition listTabs :: "World \<Rightarrow> exn + TabInfo list" where
  \<comment> \<open>the url and title columns come from the browser and are left out\<close>
  "listTabs w =
     (case requireSession w of Inl e \<Rightarrow> Inl e
      | Inr r \<Rightarrow> Inr (map (\<lambda>e. \<lparr>tab_pageId = fst e,
                                   tab_isActive = (fst e = activePageId (sessions w r))\<rparr>)
                         (pages (sessions w r))))"

section \<open>Evidence capture (collector/collector.ts)\<close>

record ExecuteOptions =
  eo_action :: string
  eo_description :: string
  eo_details :: "StepDetails option"

definition stepScreenshotPath :: "DemoSession \<Rightarrow> string" where
  \<comment> \<open>\<open>assets/step-NNN.png\<close> for the next step number\<close>
  "stepScreenshotPath session =
     pathJoin (pathJoin (outputDir (options session)) ''assets'')
       (''step-'' @ padStart 3 CHR ''0'' (showInt (int (length (steps session)) + 1)) @ ''.png'')"

definition videoOffset :: "DemoSession \<Rightarrow> World \<Rightarrow> int option \<times> World" where
  \<comment> \<open>\<open>session.videoStartTime ? Date.now() - session.videoStartTime : undefined\<close>\<close>
  "videoOffset session w =
     (if numTruthy (videoStartTime session)
      then (Some (fst (dateNow w) - the (videoStartTime session)), snd (dateNow w))
      else (None, w))"

text \<open>
  The callback \<open>fn\<close> is any computation on the world. The \<open>finally\<close> block runs on both
  outcomes; an exception of \<open>addStep\<close> inside it replaces the outcome of the callback.
  The returned step is the last entry of the log of the session captured on entry
  (\<open>None\<close> when that log is empty).
\<close>

definition executeWithEvidence ::
  "ExecuteOptions \<Rightarrow> (World \<Rightarrow> (exn + 'a) \<times> World) \<Rightarrow> World
     \<Rightarrow> (exn + DemoStep option \<times> 'a) \<times> World" where
  "executeWithEvidence opts fn w =
     (case requireSession w of Inl e \<Rightarrow> (Inl e, w)
      | Inr r \<Rightarrow>
        (let session = sessions w r;
             pg = the (page session);
             startTime = fst (dateNow w);
             w1 = snd (dateNow w);
             vStart = (if numTruthy (videoStartTime session)
                       then Some (startTime - the (videoStartTime session)) else None);
             shot = (if screenshotOnStep (options session)
                     then Some (stepScreenshotPath session) else None)
         in andThen (callIf (screenshotOnStep (options session))
                       (Screenshot pg (stepScreenshotPath session)) w1) (\<lambda>_ w2.
              let outcome = fst (fn w2);
                  w3 = snd (fn w2);
                  dur = fst (dateNow w3) - startTime;
                  w4 = snd (dateNow w3);
                  vEnd = fst (videoOffset (sessions w4 r) w4);
                  w5 = snd (videoOffset (sessions w4 r) w4);
                  stamp = fst (dateNow w5);
                  w6 = snd (dateNow w5)
              in andThen (addStep \<lparr>action = eo_action opts, description = eo_description opts,
                            timestamp = stamp, duration = dur, videoStartMs = vStart,
                            videoEndMs = vEnd, details = orElse (eo_details opts) noDetails,
                            evidence = \<lparr>screenshotPath = shot, beforeSnapshot = None,
                                         afterSnapshot = None\<rparr>,
                            success = (case outcome of Inl _ \<Rightarrow> False | Inr _ \<Rightarrow> True),
                            error = (case outcome of Inl e \<Rightarrow> Some (message e) | Inr _ \<Rightarrow> None)\<rparr> w6)
                   (\<lambda>_ w7.
                      case outcome of
                        Inl e \<Rightarrow> (Inl e, w7)
                      | Inr result \<Rightarrow>
                          (Inr (if steps (sessions w7 r) = [] then None
                                else Some (last (steps (sessions w7 r))), result), w7)))))"

section \<open>The scroll tool (tools/scroll.ts)\<close>

datatype Direction = up | down

definition directionName :: "Direction \<Rightarrow> string" where
  "directionName d = (case d of up \<Rightarrow> ''up'' | down \<Rightarrow> ''down'')"

record ScrollInput =
  sc_ref :: "string option"
  sc_direction :: Direction
  sc_amount :: int
  sc_description :: string

record ScrollResult =
  sr_success :: bool
  sr_stepId :: int
  sr_ref :: "string option"
  sr_direction :: Direction
  sr_error :: "string option"

definition scrollAction :: "Page \<Rightarrow> ScrollInput \<Rightarrow> World \<Rightarrow> (exn + unit) \<times> World" where
  "scrollAction pg input w =
     (if truthy (sc_ref input)
      then andThen (call (FindElementByRef pg (the (sc_ref input))) w) (\<lambda>_ w1.
             call (ScrollIntoViewIfNeeded pg (the (sc_ref input))) w1)
      else (let delta = (if sc_direction input = down then sc_amount input else - sc_amount input)
            in call (MouseWheel pg 0 delta) w))"

definition scroll :: "ScrollInput \<Rightarrow> World \<Rightarrow> (exn + ScrollResult) \<times> World" where
  "scroll input w =
     (case requireSession w of Inl e \<Rightarrow> (Inl e, w)
      | Inr r \<Rightarrow>
        andThen (executeWithEvidence
                   \<lparr>eo_action = ''scroll'', eo_description = sc_description input,
                    eo_details = Some (noDetails\<lparr>d_ref := sc_ref input\<rparr>)\<rparr>
                   (scrollAction (the (page (sessions w r))) input) w)
          (\<lambda>res w1. case fst res of
               None \<Rightarrow> (Inl (ExtError ''Cannot read properties of undefined''), w1)
             | Some step \<Rightarrow>
                 (Inr \<lparr>sr_success = success step, sr_stepId = step_id step, sr_ref = sc_ref input,
                       sr_direction = sc_direction input, sr_error = error step\<rparr>, w1)))"

section \<open>Runs of the session store\<close>

definition addSteps :: "PartialStep list \<Rightarrow> World \<Rightarrow> World" where
  \<comment> \<open>a sequence of appends, in order\<close>
  "addSteps ps w = foldl (\<lambda>w p. snd (addStep p w)) w ps"

definition storePreserving :: "(World \<Rightarrow> (exn + unit) \<times> World) \<Rightarrow> bool" where
  \<comment> \<open>an action callback that works on the page only: it leaves the session store alone\<close>
  "storePreserving fn = (\<forall>w. sessions (snd (fn w)) = sessions w
     \<and> currentSession (snd (fn w)) = currentSession w)"

text \<open>
  The worlds a process can be in: it starts with no active session, the environment may
  change its oracles at any time, and the store is changed by the operations of
  \<open>manager.ts\<close> and by \<open>executeWithEvidence\<close> around a page action.
\<close>

inductive reachable :: "World \<Rightarrow> bool" where
  r_init: "currentSession w = None \<Longrightarrow> reachable w"
| r_env: "reachable w \<Longrightarrow>
     reachable (w\<lparr>clock := c, ticks := t, fault := f, nextHandle := h, uuids := u, tmpdir := d\<rparr>)"
| r_start: "reachable w \<Longrightarrow> reachable (snd (startSession input w))"
| r_end: "reachable w \<Longrightarrow> reachable (snd (endSession w))"
| r_addStep: "reachable w \<Longrightarrow> reachable (snd (addStep step w))"
| r_newTab: "reachable w \<Longrightarrow> reachable (snd (newTab url w))"
| r_switchTab: "reachable w \<Longrightarrow> reachable (snd (switchTab (Some pageId) w))"
| r_closeTab: "reachable w \<Longrightarrow> reachable (snd (closeTab pageId w))"
| r_execute: "reachable w \<Longrightarrow> storePreserving fn \<Longrightarrow>
     reachable (snd (executeWithEvidence opts fn w))"

section \<open>Deliverable packager (generator/packager.ts)\<close>

definition generateNarrationScript :: "DemoSession \<Rightarrow> string" where
  "generateNarrationScript session =
     joinWith ''\<newline>''
       ([''=== '' @ title session @ '' ==='', [],
         ''Welcome! In this tutorial, I'll show you how to '' @ toLowerCase (title session) @ ''.'',
         [], ''Let's get started.'', []]
        @ concat (map (\<lambda>step. if stepToNarration step \<noteq> []
                                then [''[Step '' @ showInt (step_id step) @ '']'', stepToNarration step, []]
                                else []) (steps session))
        @ [''---'', [],
           ''And that's it! You've successfully completed '' @ toLowerCase (title session) @ ''.'',
           [], ''If you have any questions, feel free to reach out.'', ''Thanks for watching!''])"

text \<open>
  The file system as the packager sees it: \<open>files\<close> holds the content of every file,
  \<open>listing\<close> is what \<open>readdir\<close> returns for a directory (\<open>None\<close> when it raises), and
  \<open>writeFault\<close> names the paths on which \<open>writeFile\<close> raises.
\<close>

record FileSystem =
  files :: "string \<Rightarrow> string option"
  listing :: "string \<Rightarrow> string list option"
  writeFault :: "string \<Rightarrow> string option"

definition writeFile :: "string \<Rightarrow> string \<Rightarrow> FileSystem \<Rightarrow> (exn + unit) \<times> FileSystem" where
  "writeFile path content fs =
     (case writeFault fs path of
        Some m \<Rightarrow> (Inl (ExtError m), fs)
      | None \<Rightarrow> (Inr (), fs\<lparr>files := (files fs)(path := Some content)\<rparr>))"

definition access :: "string \<Rightarrow> FileSystem \<Rightarrow> bool" where
  \<comment> \<open>\<open>fs.access\<close> resolves\<close>
  "access path fs = (files fs path \<noteq> None)"

text \<open>
  The renderers of markup and JSON text only hand a string to the packager; they are
  parameters of the model, and each may raise.
\<close>

record Generators =
  generateMarkdownGuide :: "DemoSession \<Rightarrow> exn + string"
  generateStepsJson :: "DemoSession \<Rightarrow> exn + string"
  generateHtmlTutorial :: "DemoSession \<Rightarrow> exn + string"
  generateAnimatedHtmlPreview :: "DemoSession \<Rightarrow> string list \<Rightarrow> string"
  generateFfmpegScript :: "string list \<Rightarrow> string \<Rightarrow> string"
  generateFfmpegBatch :: "string list \<Rightarrow> string \<Rightarrow> string"

definition isAbsolute :: "string \<Rightarrow> bool" where
  "isAbsolute path = (path \<noteq> [] \<and> hd path = CHR ''/'')"

definition availableScreenshots :: "DemoSession \<Rightarrow> string \<Rightarrow> FileSystem \<Rightarrow> string list" where
  "availableScreenshots session outDir fs =
     filter (\<lambda>fullPath. access fullPath fs)
       (map (\<lambda>step. let sp = the (screenshotPath (evidence step))
                     in if isAbsolute sp then sp else pathJoin outDir sp)
          (filter (\<lambda>step. truthy (screenshotPath (evidence step))) (steps session)))"

definition generateGif ::
  "Generators \<Rightarrow> DemoSession \<Rightarrow> string \<Rightarrow> FileSystem \<Rightarrow> (exn + string option) \<times> FileSystem" where
  "generateGif gens session outDir fs =
     (let screenshots = availableScreenshots session outDir fs in
      if length screenshots = 0 then (Inr None, fs)
      else
        andThen (writeFile (pathJoin outDir ''animated-preview.html'')
                   (generateAnimatedHtmlPreview gens session screenshots) fs) (\<lambda>_ fs.
        andThen (writeFile (pathJoin outDir ''generate-gif.sh'')
                   (generateFfmpegScript gens screenshots outDir) fs) (\<lambda>_ fs.
        andThen (writeFile (pathJoin outDir ''generate-gif.bat'')
                   (generateFfmpegBatch gens screenshots outDir) fs) (\<lambda>_ fs.
          (Inr (Some (pathJoin outDir ''animated-preview.html'')), fs)))))"

record DeliverableFiles =
  f_video :: "string option"
  f_trace :: "string option"
  f_guide :: string
  f_steps :: string
  f_narration :: "string option"
  f_subtitleSrt :: "string option"
  f_subtitleVtt :: "string option"
  f_tutorial :: "string option"
  f_gifPreview :: "string option"
  f_assets :: "string list"

record Summary =
  totalSteps :: nat
  totalDuration :: int
  successRate :: rat

record DemoDeliverables =
  dl_sessionId :: string
  dl_title :: string
  dl_outputDir :: string
  dl_files :: DeliverableFiles
  dl_summary :: Summary

definition collectAssets :: "string \<Rightarrow> FileSystem \<Rightarrow> string list" where
  "collectAssets assetsDir fs =
     (case listing fs assetsDir of
        None \<Rightarrow> []
      | Some names \<Rightarrow> map (\<lambda>f. pathJoin assetsDir f) (filter (\<lambda>f. endsWith f ''.png'') names))"

definition findVideo :: "string \<Rightarrow> FileSystem \<Rightarrow> string option" where
  "findVideo outDir fs =
     (if access (pathJoin outDir ''demo.webm'') fs then Some (pathJoin outDir ''demo.webm'')
      else (case listing fs (pathJoin outDir ''videos'') of
              None \<Rightarrow> None
            | Some names \<Rightarrow>
                (case find (\<lambda>f. endsWith f ''.webm'') names of
                   None \<Rightarrow> None
                 | Some webmFile \<Rightarrow> Some (pathJoin (pathJoin outDir ''videos'') webmFile))))"

definition findTrace :: "string \<Rightarrow> FileSystem \<Rightarrow> string option" where
  "findTrace outDir fs =
     (if access (pathJoin outDir ''trace.zip'') fs then Some (pathJoin outDir ''trace.zip'') else None)"

definition sessionSummary :: "DemoSession \<Rightarrow> Summary" where
  "sessionSummary session =
     (let successCount = length (filter success (steps session))
      in \<lparr>totalSteps = length (steps session),
          totalDuration = sumDurations (steps session),
          successRate = (if length (steps session) > 0
                         then of_nat successCount / of_nat (length (steps session)) else 1)\<rparr>)"

definition generated :: "exn + string \<Rightarrow> 's \<Rightarrow> (exn + string) \<times> 's" where
  \<comment> \<open>the call of a generator: its exception leaves the state as it is\<close>
  "generated g fs = (g, fs)"

definition packageDeliverables ::
  "Generators \<Rightarrow> DemoSession \<Rightarrow> FileSystem \<Rightarrow> (exn + DemoDeliverables) \<times> FileSystem" where
  "packageDeliverables gens session fs =
     (let outDir = outputDir (options session);
          guidePath = pathJoin outDir ''guide.md'';
          stepsPath = pathJoin outDir ''steps.json'';
          narrationPath = pathJoin outDir ''narration.txt'';
          srtPath = pathJoin outDir ''subtitles.srt'';
          vttPath = pathJoin outDir ''subtitles.vtt'';
          htmlPath = pathJoin outDir ''tutorial.html''
      in
        andThen (generated (generateMarkdownGuide gens session) fs) (\<lambda>guideContent fs.
        andThen (writeFile guidePath guideContent fs) (\<lambda>_ fs.
        andThen (generated (generateStepsJson gens session) fs) (\<lambda>stepsData fs.
        andThen (writeFile stepsPath stepsData fs) (\<lambda>_ fs.
        andThen (writeFile narrationPath (generateNarrationScript session) fs) (\<lambda>_ fs.
        andThen (writeFile srtPath (generateSrt session) fs) (\<lambda>_ fs.
        andThen (writeFile vttPath (generateVtt session) fs) (\<lambda>_ fs.
        andThen (generated (generateHtmlTutorial gens session) fs) (\<lambda>htmlContent fs.
        andThen (writeFile htmlPath htmlContent fs) (\<lambda>_ fs.
        andThen (generateGif gens session outDir fs) (\<lambda>gifPreviewPath fs.
          (Inr \<lparr>dl_sessionId = session_id session, dl_title = title session, dl_outputDir = outDir,
                dl_files = \<lparr>f_video = findVideo outDir fs, f_trace = findTrace outDir fs,
                             f_guide = guidePath, f_steps = stepsPath,
                             f_narration = Some narrationPath, f_subtitleSrt = Some srtPath,
                             f_subtitleVtt = Some vttPath, f_tutorial = Some htmlPath,
                             f_gifPreview = (if truthy gifPreviewPath then gifPreviewPath else None),
                             f_assets = collectAssets (pathJoin outDir ''assets'') fs\<rparr>,
                dl_summary = sessionSummary session\<rparr>, fs))))))))))))"

text \<open>
  The six text deliverables in the order in which \<open>packageDeliverables\<close> produces them:
  the path of each and the outcome of its generator.
\<close>

definition textDeliverables :: "Generators \<Rightarrow> DemoSession \<Rightarrow> (string \<times> (exn + string)) list" where
  "textDeliverables gens session =
     (let outDir = outputDir (options session) in
      [(pathJoin outDir ''guide.md'', generateMarkdownGuide gens session),
       (pathJoin outDir ''steps.json'', generateStepsJson gens session),
       (pathJoin outDir ''narration.txt'', Inr (generateNarrationScript session)),
       (pathJoin outDir ''subtitles.srt'', Inr (generateSrt session)),
       (pathJoin outDir ''subtitles.vtt'', Inr (generateVtt session)),
       (pathJoin outDir ''tutorial.html'', generateHtmlTutorial gens session)])"

definition stageOutcome :: "FileSystem \<Rightarrow> string \<times> (exn + string) \<Rightarrow> exn + string" where
  \<comment> \<open>what generating and writing one deliverable comes to\<close>
  "stageOutcome fs d =
     (case snd d of
        Inl e \<Rightarrow> Inl e
      | Inr content \<Rightarrow>
          (case writeFault fs (fst d) of Some m \<Rightarrow> Inl (ExtError m) | None \<Rightarrow> Inr content))"

definition stageOk :: "FileSystem \<Rightarrow> string \<times> (exn + string) \<Rightarrow> bool" where
  "stageOk fs d = (case stageOutcome fs d of Inl _ \<Rightarrow> False | Inr _ \<Rightarrow> True)"

definition written :: "(string \<times> (exn + string)) list \<Rightarrow> FileSystem \<Rightarrow> FileSystem" where
  \<comment> \<open>the file system after the listed deliverables have been written, first to last\<close>
  "written ds fs = foldl (\<lambda>fs d. case snd d of Inl _ \<Rightarrow> fs
                                    | Inr content \<Rightarrow> fs\<lparr>files := (files fs)(fst d := Some content)\<rparr>) fs ds"

text \<open>
  Generating and writing a list of deliverables one after the other, as the body of
  \<open>packageDeliverables\<close> does for its six text deliverables.
\<close>

fun writeAll :: "(string \<times> (exn + string)) list \<Rightarrow> FileSystem \<Rightarrow> (exn + unit) \<times> FileSystem" where
  "writeAll [] fs = (Inr (), fs)"
| "writeAll (d # ds) fs =
     andThen (generated (snd d) fs) (\<lambda>content fs.
     andThen (writeFile (fst d) content fs) (\<lambda>_ fs. writeAll ds fs))"

text \<open>What \<open>packageDeliverables\<close> does after the six text deliverables.\<close>

definition finishPackage ::
  "Generators \<Rightarrow> DemoSession \<Rightarrow> FileSystem \<Rightarrow> (exn + DemoDeliverables) \<times> FileSystem" where
  "finishPackage gens session fs =
     (let outDir = outputDir (options session) in
      andThen (generateGif gens session outDir fs) (\<lambda>gifPreviewPath fs.
        (Inr \<lparr>dl_sessionId = session_id session, dl_title = title session, dl_outputDir = outDir,
              dl_files = \<lparr>f_video = findVideo outDir fs, f_trace = findTrace outDir fs,
                           f_guide = pathJoin outDir ''guide.md'',
                           f_steps = pathJoin outDir ''steps.json'',
                           f_narration = Some (pathJoin outDir ''narration.txt''),
                           f_subtitleSrt = Some (pathJoin outDir ''subtitles.srt''),
                           f_subtitleVtt = Some (pathJoin outDir ''subtitles.vtt''),
                           f_tutorial = Some (pathJoin outDir ''tutorial.html''),
                           f_gifPreview = (if truthy gifPreviewPath then gifPreviewPath else None),
                           f_assets = collectAssets (pathJoin outDir ''assets'') fs\<rparr>,
              dl_summary = sessionSummary session\<rparr>, fs)))"

section \<open>Example sessions\<close>

text \<open>
  A session whose only step is a click recorded half a second after the video started.
\<close>

definition clickStep :: DemoStep where
  "clickStep = \<lparr>action = ''click'', description = ''Click login'', timestamp = 1700000000900,
     duration = 400, videoStartMs = Some 500, videoEndMs = Some 900, details = noDetails,
     evidence = \<lparr>screenshotPath = None, beforeSnapshot = None, afterSnapshot = None\<rparr>,
     success = True, error = None, step_id = 1\<rparr>"

definition demoOptions :: DemoSessionOptions where
  "demoOptions = \<lparr>video = True, trace = True, screenshotOnStep = False, outputDir = ''out'',
     storageState = None, headless = True, viewport = (1280, 720)\<rparr>"


definition earlyClickSession :: DemoSession where
  "earlyClickSession = \<lparr>session_id = ''a1b2c3d4'', title = ''Log in'',
     startUrl = ''https://example.test'', startedAt = 1700000000000, status = completed,
     options = demoOptions, steps = [clickStep], videoStartTime = Some 1700000000000,
     browser = None, browserContext = None, page = None, pages = [], activePageId = 0,
     nextPageId = 1\<rparr>"

text \<open>
  A log whose first step carries video offsets and whose last step carries none.
\<close>

definition mixedOffsetsSession :: DemoSession where
  "mixedOffsetsSession = earlyClickSession\<lparr>steps :=
     [clickStep\<lparr>action := ''navigate'', description := ''Open the login page'',
                duration := 800, videoStartMs := Some 10000, videoEndMs := Some 10800\<rparr>,
      clickStep\<lparr>action := ''pressKey'', description := ''Press Enter'', duration := 50,
                videoStartMs := None, videoEndMs := None, step_id := 2\<rparr>]\<rparr>"

text \<open>
  A log of three steps: a navigation recorded with an empty description, a screenshot, and
  a fill. The narration of the navigation ends with a blank; the screenshot has no
  narration.
\<close>

definition navStep :: DemoStep where
  "navStep = \<lparr>action = ''navigate'', description = [], timestamp = 1700000003000,
     duration = 300, videoStartMs = None, videoEndMs = None,
     details = noDetails\<lparr>d_url := Some ''https://example.test/login''\<rparr>,
     evidence = \<lparr>screenshotPath = None, beforeSnapshot = None, afterSnapshot = None\<rparr>,
     success = True, error = None, step_id = 1\<rparr>"

definition shotStep :: DemoStep where
  "shotStep = \<lparr>action = ''screenshot'', description = ''The login form'',
     timestamp = 1700000004000, duration = 800, videoStartMs = None, videoEndMs = None,
     details = noDetails,
     evidence = \<lparr>screenshotPath = None, beforeSnapshot = None, afterSnapshot = None\<rparr>,
     success = True, error = None, step_id = 2\<rparr>"

definition fillStep :: DemoStep where
  "fillStep = \<lparr>action = ''fill'', description = ''Enter the user name in the first field'',
     timestamp = 1700000005000, duration = 450, videoStartMs = None, videoEndMs = None,
     details = noDetails\<lparr>d_ref := Some ''1'', d_value := Some ''alice''\<rparr>,
     evidence = \<lparr>screenshotPath = None, beforeSnapshot = None, afterSnapshot = None\<rparr>,
     success = True, error = None, step_id = 3\<rparr>"

definition estimateSession :: DemoSession where
  "estimateSession = \<lparr>session_id = ''a1b2c3d4'', title = ''Log in'',
     startUrl = ''https://example.test'', startedAt = 1700000000000, status = completed,
     options = demoOptions, steps = [navStep, shotStep, fillStep], videoStartTime = None,
     browser = None, browserContext = None, page = None, pages = [], activePageId = 0,
     nextPageId = 1\<rparr>"

section \<open>Example worlds\<close>

text \<open>
  A process that has not started a session yet: every external call succeeds, the clock
  advances by 250 ms between readings.
\<close>

definition blankSession :: DemoSession where
  "blankSession = \<lparr>session_id = [], title = [], startUrl = [], startedAt = 0, status = failed,
     options = demoOptions, steps = [], videoStartTime = None, browser = None,
     browserContext = None, page = None, pages = [], activePageId = 0, nextPageId = 1\<rparr>"

definition world0 :: World where
  "world0 = \<lparr>sessions = (\<lambda>_. blankSession), nextRef = 0, currentSession = None,
     clock = (\<lambda>n. 1700000000000 + 250 * int n), ticks = 0, fault = (\<lambda>_. None),
     nextHandle = 0, uuids = (\<lambda>_. ''a1b2c3d4-0000-4000-8000-000000000000''),
     tmpdir = ''/tmp''\<rparr>"

definition demoInput :: StartSessionInput where
  "demoInput = \<lparr>in_url = ''https://example.test'', in_title = ''Log in'',
     in_outputDir = Some ''out'', in_video = None, in_trace = None,
     in_screenshotOnStep = Some False, in_storageState = None, in_headless = Some True,
     in_viewport = None\<rparr>"

definition demoWorld :: World where
  \<comment> \<open>one running session with its first viewport\<close>
  "demoWorld = snd (startSession demoInput world0)"

definition twoTabWorld :: World where
  \<comment> \<open>the same session after a second viewport has been opened\<close>
  "twoTabWorld = snd (newTab None demoWorld)"

definition scrollUpInput :: ScrollInput where
  "scrollUpInput = \<lparr>sc_ref = None, sc_direction = up, sc_amount = 500,
     sc_description = ''Scroll back up''\<rparr>"

section \<open>Effects of the store operations, in closed form\<close>

text \<open>
  What \<open>closeTab\<close> does to the session when the viewport is found, is not the last one
  and closes.
\<close>

definition closedSession :: "int \<Rightarrow> DemoSession \<Rightarrow> DemoSession" where
  "closedSession pageId s =
     (let s1 = s\<lparr>pages := mapDelete pageId (pages s)\<rparr>
      in if activePageId s = pageId
         then s1\<lparr>activePageId := hd (pageIds s1), page := Some (snd (hd (pages s1)))\<rparr>
         else s1)"

text \<open>
  The step that \<open>executeWithEvidence\<close> hands to \<open>addStep\<close>, and the world in which it
  does so, in terms of the world \<open>w\<close> on entry, the outcome of the callback and the world
  \<open>w3\<close> the callback leaves.
\<close>

definition screenshotFault :: "World \<Rightarrow> nat \<Rightarrow> string option" where
  \<comment> \<open>the message with which the screenshot before the action raises, if it is taken and raises\<close>
  "screenshotFault w r =
     (if screenshotOnStep (options (sessions w r))
      then fault w (Screenshot (the (page (sessions w r))) (stepScreenshotPath (sessions w r)))
      else None)"

definition recordedStep ::
  "ExecuteOptions \<Rightarrow> World \<Rightarrow> nat \<Rightarrow> (exn + 'a) \<Rightarrow> World \<Rightarrow> PartialStep" where
  "recordedStep opts w r outcome w3 =
     (let session = sessions w r;
          w4 = snd (dateNow w3);
          w5 = snd (videoOffset (sessions w4 r) w4)
      in \<lparr>action = eo_action opts, description = eo_description opts,
          timestamp = fst (dateNow w5), duration = fst (dateNow w3) - fst (dateNow w),
          videoStartMs = (if numTruthy (videoStartTime session)
                          then Some (fst (dateNow w) - the (videoStartTime session)) else None),
          videoEndMs = fst (videoOffset (sessions w4 r) w4),
          details = orElse (eo_details opts) noDetails,
          evidence = \<lparr>screenshotPath = (if screenshotOnStep (options session)
                                         then Some (stepScreenshotPath session) else None),
                       beforeSnapshot = None, afterSnapshot = None\<rparr>,
          success = (case outcome of Inl _ \<Rightarrow> False | Inr _ \<Rightarrow> True),
          error = (case outcome of Inl e \<Rightarrow> Some (message e) | Inr _ \<Rightarrow> None)\<rparr>)"

definition afterCallback :: "World \<Rightarrow> nat \<Rightarrow> World \<Rightarrow> World" where
  "afterCallback w r w3 =
     (let w4 = snd (dateNow w3); w5 = snd (videoOffset (sessions w4 r) w4) in snd (dateNow w5))"

section \<open>Invariants of the session store\<close>

definition sessionInv :: "DemoSession \<Rightarrow> bool" where
  \<comment> \<open>viewport ids in insertion order are increasing and below the counter, the active id is
     live and is the current page, and the step ids count from 1\<close>
  "sessionInv s =
     (sorted_wrt (<) (pageIds s)
      \<and> list_all (\<lambda>k. k < nextPageId s) (pageIds s)
      \<and> page s \<noteq> None
      \<and> mapGet (pages s) (activePageId s) = page s
      \<and> map step_id (steps s) = map int [1..<Suc (length (steps s))])"

definition storeInv :: "World \<Rightarrow> bool" where
  "storeInv w = (case currentSession w of None \<Rightarrow> True | Some r \<Rightarrow> sessionInv (sessions w r))"

text \<open>Steps as the tools hand them to \<open>addStep\<close>, and an action that fails.\<close>

definition okPartial :: PartialStep where
  "okPartial = \<lparr>action = ''navigate'', description = ''Open the login page'',
     timestamp = 1700000001000, duration = 300, videoStartMs = Some 700, videoEndMs = Some 1000,
     details = noDetails\<lparr>d_url := Some ''https://example.test/login''\<rparr>,
     evidence = \<lparr>screenshotPath = None, beforeSnapshot = None, afterSnapshot = None\<rparr>,
     success = True, error = None\<rparr>"

definition failedPartial :: PartialStep where
  "failedPartial = \<lparr>action = ''click'', description = ''Click the missing button'',
     timestamp = 1700000002000, duration = 5000, videoStartMs = Some 1500, videoEndMs = Some 6500,
     details = noDetails\<lparr>d_ref := Some ''7''\<rparr>,
     evidence = \<lparr>screenshotPath = None, beforeSnapshot = None, afterSnapshot = None\<rparr>,
     success = False, error = Some ''Element not found''\<rparr>"

definition failingAction :: "World \<Rightarrow> (exn + unit) \<times> World" where
  "failingAction w = (Inl (ExtError ''Element not found''), w)"

text \<open>
  Renderers that return short fixed texts, the same renderers with a JSON renderer that
  raises, a file system on which every write succeeds and nothing else exists, a session
  whose step has a screenshot, and a file system that holds the screenshot but cannot
  take the preview page.
\<close>

definition demoGens :: Generators where
  "demoGens = \<lparr>generateMarkdownGuide = (\<lambda>s. Inr (''# '' @ title s)),
     generateStepsJson = (\<lambda>s. Inr ''{}''),
     generateHtmlTutorial = (\<lambda>s. Inr ''<html></html>''),
     generateAnimatedHtmlPreview = (\<lambda>s shots. ''<html></html>''),
     generateFfmpegScript = (\<lambda>shots dir. ''ffmpeg''),
     generateFfmpegBatch = (\<lambda>shots dir. ''ffmpeg'')\<rparr>"

definition failingGens :: Generators where
  "failingGens = demoGens\<lparr>generateStepsJson :=
     (\<lambda>s. Inl (ExtError ''Converting circular structure to JSON''))\<rparr>"

definition okFs :: FileSystem where
  "okFs = \<lparr>files = (\<lambda>_. None), listing = (\<lambda>_. None), writeFault = (\<lambda>_. None)\<rparr>"

definition shotSession :: DemoSession where
  "shotSession = earlyClickSession\<lparr>steps :=
     [clickStep\<lparr>evidence := \<lparr>screenshotPath = Some ''assets/step-001.png'',
                                beforeSnapshot = None, afterSnapshot = None\<rparr>\<rparr>]\<rparr>"

definition previewBrokenFs :: FileSystem where
  "previewBrokenFs = \<lparr>files = (\<lambda>p. if p = ''out/assets/step-001.png'' then Some ''PNG'' else None),
     listing = (\<lambda>_. None),
     writeFault = (\<lambda>p. if p = ''out/animated-preview.html''
                          then Some ''ENOSPC: no space left on device'' else None)\<rparr>"

definition emptySession :: DemoSession where
  "emptySession = earlyClickSession\<lparr>steps := []\<rparr>"

section \<open>Properties of the timing engine\<close>

subsection \<open>The step loop of the video-timeline narration\<close>

lemma pushStepSegments_append:
  "pushStepSegments segs (xs @ ys) = pushStepSegments (pushStepSegments segs xs) ys"
  by (induction xs arbitrary: segs) auto




text \<open>
  A log in which no step carries recorded video offsets (a log rebuilt from a
  \<open>steps.json\<close> file, for one) and no duration is negative always meets the condition of
  \<open>rangesOrdered\<close>.
\<close>

lemma rangesOrdered_without_offsets:
  "list_all (\<lambda>s. videoStartMs s = None \<and> videoEndMs s = None \<and> 0 \<le> duration s) ss
   \<Longrightarrow> rangesOrdered prev ss"
  by (induction ss arbitrary: prev) (auto simp: Let_def)

text \<open>
  C10. In video-synchronized timing, when the final step of the log yields narration text
  and carries a recorded video end offset \<open>e\<close>, the outro segment is zero-width: it starts
  at \<open>e\<close>, ends at \<open>e\<close>, lasts 0 ms, and the total duration of the session is \<open>e\<close>.
\<close>

theorem outro_zero_width:
  assumes "steps session \<noteq> []"
    and "stepToNarration (last (steps session)) \<noteq> []"
    and "videoEndMs (last (steps session)) = Some e"
  shows "let d = generateTimedNarration session; outro = last (segments d)
         in stepId outro = - 1 \<and> startMs outro = e \<and> endMs outro = e
            \<and> durationMs outro = 0 \<and> totalDurationMs d = e"
proof -
  obtain xs x where sx: "steps session = xs @ [x]"
    using assms(1) by (metis append_butlast_last_id)
  have x: "stepToNarration x \<noteq> []" "videoEndMs x = Some e"
    using assms sx by auto
  show ?thesis
    using x by (simp add: generateTimedNarration_def Let_def sx pushStepSegments_append
        lastEndMs_def stepSegment_def sessionTotalDurationMs_def)
qed

theorem outro_zero_width_witness:
  "steps earlyClickSession \<noteq> []
   \<and> stepToNarration (last (steps earlyClickSession)) \<noteq> []
   \<and> videoEndMs (last (steps earlyClickSession)) = Some 900
   \<and> (let d = generateTimedNarration earlyClickSession; outro = last (segments d)
      in stepId outro = - 1 \<and> startMs outro = 900 \<and> endMs outro = 900
         \<and> durationMs outro = 0 \<and> totalDurationMs d = 900)"
proof -
  have h1: "steps earlyClickSession \<noteq> []"
    by (simp add: earlyClickSession_def)
  have h2: "stepToNarration (last (steps earlyClickSession)) \<noteq> []"
    by code_simp
  have h3: "videoEndMs (last (steps earlyClickSession)) = Some 900"
    by (simp add: earlyClickSession_def clickStep_def)
  show ?thesis
    using h1 h2 h3 outro_zero_width [OF h1 h2 h3] by simp
qed

text \<open>
  When the last step carries no video end offset the total duration is the sum of the
  recorded durations plus 5000 ms, whatever the offsets of the steps before it. In
  \<open>mixedOffsetsSession\<close> the cues before the outro are in order and the outro cue runs
  from 10850 ms back to 5850 ms.
\<close>

lemma outro_before_its_start:
  "map startMs (segments (generateTimedNarration mixedOffsetsSession)) = [0, 10000, 10800, 10850]
   \<and> map endMs (segments (generateTimedNarration mixedOffsetsSession)) = [2000, 10800, 10850, 5850]
   \<and> cuesOrdered (butlast (segments (generateTimedNarration mixedOffsetsSession)))
   \<and> \<not> cuesOrdered (segments (generateTimedNarration mixedOffsetsSession))
   \<and> srtCue (3, segments (generateTimedNarration mixedOffsetsSession) ! 3) ! 1
       = ''00:00:10,850 --> 00:00:05,850''"
  by code_simp




subsection \<open>Estimated durations\<close>

lemma round_estimatedDuration:
  "round (estimatedDuration n) = max 2000 (400 * int (wordCount n))"
proof -
  have "(of_nat (wordCount n) / 150) * 60 * 1000 = (of_int (400 * int (wordCount n)) :: rat)"
    by simp
  then have "estimatedDuration n = of_int (max 2000 (400 * int (wordCount n)))"
    unfolding estimatedDuration_def by (simp add: max_def)
  then show ?thesis by (simp del: of_int_max of_int_mult of_int_of_nat_eq)
qed

lemma timedSteps_fst:
  "fst (timedSteps t ss) =
     map (\<lambda>i. \<lparr>t_stepId = step_id (filter (\<lambda>s. stepToNarration s \<noteq> []) ss ! i),
                t_timestamp = t + (\<Sum>s\<leftarrow>take i (filter (\<lambda>s. stepToNarration s \<noteq> []) ss). duration s + 500),
                t_duration = max 2000 (400 * int (wordCount (stepToNarration
                               (filter (\<lambda>s. stepToNarration s \<noteq> []) ss ! i)))),
                t_text = stepToNarration (filter (\<lambda>s. stepToNarration s \<noteq> []) ss ! i)\<rparr>)
       [0..<length (filter (\<lambda>s. stepToNarration s \<noteq> []) ss)]"
proof (induction ss arbitrary: t)
  case Nil
  then show ?case by simp
next
  case (Cons s ss)
  show ?case
  proof (cases "stepToNarration s = []")
    case True
    then show ?thesis using Cons.IH by simp
  next
    case False
    then show ?thesis
      using Cons.IH [of "t + (duration s + 500)"]
      by (simp add: Let_def map_upt_Suc round_estimatedDuration add.assoc del: upt_Suc)
  qed
qed

lemma timedSteps_snd:
  "snd (timedSteps t ss) =
     t + (\<Sum>s\<leftarrow>filter (\<lambda>s. stepToNarration s \<noteq> []) ss. duration s + 500)"
  by (induction ss arbitrary: t) (auto simp: Let_def)

lemma estimated_items:
  "generateTimedNarrationEstimated session =
     \<lparr>t_stepId = 0, t_timestamp = 0, t_duration = 3000, t_text = introText session\<rparr>
     # map (\<lambda>i. \<lparr>t_stepId = step_id (narratedSteps session ! i),
                  t_timestamp = 3000 + (\<Sum>s\<leftarrow>take i (narratedSteps session). duration s + 500),
                  t_duration = max 2000 (400 * int (wordCount (stepToNarration (narratedSteps session ! i)))),
                  t_text = stepToNarration (narratedSteps session ! i)\<rparr>)
         [0..<length (narratedSteps session)]
     @ [\<lparr>t_stepId = - 1,
         t_timestamp = 3000 + (\<Sum>s\<leftarrow>narratedSteps session. duration s + 500),
         t_duration = 4000, t_text = outroText session\<rparr>]"
  by (simp add: generateTimedNarrationEstimated_def Let_def timedSteps_fst timedSteps_snd
      narratedSteps_def)

text \<open>
  The pieces of \<open>split(/\s+/)\<close> against the words of the text: reading on from inside a
  run of white space, and reading on from inside a piece.
\<close>

lemma splitWs_length:
  "length (splitWs True cur s) + (if s \<noteq> [] \<and> \<not> isSpace (last s) then 1 else 0)
     = 1 + wordsFrom False s"
  "length (splitWs False cur s)
     = 1 + wordsFrom True s + (if s \<noteq> [] \<and> isSpace (last s) then 1 else 0)"
  by (induction s arbitrary: cur) auto

lemma wordCount_pieces:
  "wordCount s = numberOfWords s
     + (if s = [] \<or> isSpace (hd s) then 1 else 0)
     + (if s \<noteq> [] \<and> isSpace (last s) then 1 else 0)"
proof (cases s)
  case Nil
  then show ?thesis by (simp add: wordCount_def splitWhitespace_def numberOfWords_def)
next
  case (Cons c cs)
  show ?thesis
  proof (cases "isSpace c")
    case True
    then show ?thesis
      using Cons splitWs_length(1) [of "[]" cs]
      by (auto simp: wordCount_def splitWhitespace_def numberOfWords_def split: if_splits)
  next
    case False
    then show ?thesis
      using Cons splitWs_length(2) [of "[c]" cs]
      by (auto simp: wordCount_def splitWhitespace_def numberOfWords_def split: if_splits)
  qed
qed

lemma wordCount_trimmed: "trimmed s \<Longrightarrow> wordCount s = numberOfWords s"
  by (simp add: wordCount_pieces trimmed_def)

lemma map_over_indices: "map (\<lambda>i. f (xs ! i)) [0..<length xs] = map f xs"
  by (rule nth_equalityI) simp_all

text \<open>
  C7, as stated: the duration of the segment of every narrated step is the maximum of
  2000 ms and its word count at 400 ms per word, and the clock advances by the duration of
  each step plus 500 ms. It fails on \<open>estimateSession\<close>. The narration of the navigation
  has six words and ends with a blank, and its segment lasts 2800 ms, not 2400 ms. The
  segment of the fill starts at 3800 ms, the intro and the navigation behind it, although
  the screenshot between them took 800 ms.
\<close>

theorem estimated_layout_counterexample:
  "numberOfWords (stepToNarration navStep) = 6
   \<and> t_text (generateTimedNarrationEstimated estimateSession ! 1) = stepToNarration navStep
   \<and> t_duration (generateTimedNarrationEstimated estimateSession ! 1) = 2800
   \<and> t_duration (generateTimedNarrationEstimated estimateSession ! 1)
       \<noteq> max 2000 (400 * int (numberOfWords (stepToNarration navStep)))
   \<and> t_text (generateTimedNarrationEstimated estimateSession ! 2) = stepToNarration fillStep
   \<and> t_timestamp (generateTimedNarrationEstimated estimateSession ! 2) = 3800
   \<and> t_timestamp (generateTimedNarrationEstimated estimateSession ! 2)
       \<noteq> 3000 + (duration navStep + 500) + (duration shotStep + 500)"
  by code_simp

text \<open>
  C7, amended. In estimated mode the output is the intro, one segment per step with
  non-empty narration text in log order, and the outro. The segment of a narrated step
  starts at 3000 ms, the end of the intro, plus the recorded duration and a 500 ms pause
  for every narrated step before it; steps without narration text do not advance the
  clock. When the narration text neither starts nor ends with white space, the segment
  lasts the maximum of 2000 ms and the number of its words at 150 words per minute
  (400 ms per word). The estimate is computed here in exact arithmetic; the
  double-precision value of \<open>(wordCount / 150) * 60 * 1000\<close> differs from
  \<open>400 * wordCount\<close> by far less than one half, so \<open>Math.round\<close> returns the same integer.
\<close>

theorem estimated_layout:
  "(let items = generateTimedNarrationEstimated session; ns = narratedSteps session
    in map t_stepId items = 0 # map step_id ns @ [- 1]
       \<and> map t_text items = introText session # map stepToNarration ns @ [outroText session]
       \<and> map t_timestamp items
           = 0 # map (\<lambda>i. 3000 + (\<Sum>s\<leftarrow>take i ns. duration s + 500)) [0..<length ns]
               @ [3000 + (\<Sum>s\<leftarrow>ns. duration s + 500)]
       \<and> (\<forall>i<length ns. trimmed (stepToNarration (ns ! i)) \<longrightarrow>
             t_duration (items ! Suc i)
               = max 2000 (400 * int (numberOfWords (stepToNarration (ns ! i))))))"
proof -
  let ?ns = "narratedSteps session"
  have ids: "map (\<lambda>i. step_id (?ns ! i)) [0..<length ?ns] = map step_id ?ns"
    by (rule map_over_indices)
  have texts: "map (\<lambda>i. stepToNarration (?ns ! i)) [0..<length ?ns] = map stepToNarration ?ns"
    by (rule map_over_indices)
  show ?thesis
    unfolding Let_def estimated_items
    by (simp add: comp_def ids texts nth_append wordCount_trimmed)
qed

theorem estimated_layout_witness:
  "1 < length (narratedSteps estimateSession)
   \<and> trimmed (stepToNarration (narratedSteps estimateSession ! 1))
   \<and> numberOfWords (stepToNarration (narratedSteps estimateSession ! 1)) = 11
   \<and> t_duration (generateTimedNarrationEstimated estimateSession ! Suc 1)
       = max 2000 (400 * int (numberOfWords (stepToNarration (narratedSteps estimateSession ! 1))))
   \<and> t_duration (generateTimedNarrationEstimated estimateSession ! Suc 1) = 4400
   \<and> map t_timestamp (generateTimedNarrationEstimated estimateSession) = [0, 3000, 3800, 4750]"
proof -
  have h1: "1 < length (narratedSteps estimateSession)"
    by code_simp
  have h2: "trimmed (stepToNarration (narratedSteps estimateSession ! 1))"
    by code_simp
  have n: "numberOfWords (stepToNarration (narratedSteps estimateSession ! 1)) = 11"
    by code_simp
  have v: "t_duration (generateTimedNarrationEstimated estimateSession ! Suc 1) = 4400"
    "map t_timestamp (generateTimedNarrationEstimated estimateSession) = [0, 3000, 3800, 4750]"
    by code_simp+
  have "\<forall>i<length (narratedSteps estimateSession).
      trimmed (stepToNarration (narratedSteps estimateSession ! i)) \<longrightarrow>
      t_duration (generateTimedNarrationEstimated estimateSession ! Suc i)
        = max 2000 (400 * int (numberOfWords (stepToNarration (narratedSteps estimateSession ! i))))"
    using estimated_layout [of estimateSession] by (simp add: Let_def)
  then have "t_duration (generateTimedNarrationEstimated estimateSession ! Suc 1)
       = max 2000 (400 * int (numberOfWords (stepToNarration (narratedSteps estimateSession ! 1))))"
    using h1 h2 by blast
  then show ?thesis
    using h1 h2 n v by simp
qed

section \<open>Properties of the session store\<close>

subsection \<open>Sequencing and projections\<close>

lemma andThen_simps [simp]:
  "andThen (Inl e, w) f = (Inl e, w)"
  "andThen (Inr x, w) f = f x w"
  by (simp_all add: andThen_def)

lemma updSession_simps [simp]:
  "sessions (updSession r f w) = (sessions w)(r := f (sessions w r))"
  "currentSession (updSession r f w) = currentSession w"
  "fault (updSession r f w) = fault w"
  "clock (updSession r f w) = clock w"
  "ticks (updSession r f w) = ticks w"
  "nextRef (updSession r f w) = nextRef w"
  by (simp_all add: updSession_def)

lemma dateNow_simps [simp]:
  "fst (dateNow w) = clock w (ticks w)"
  "sessions (snd (dateNow w)) = sessions w"
  "currentSession (snd (dateNow w)) = currentSession w"
  "fault (snd (dateNow w)) = fault w"
  "clock (snd (dateNow w)) = clock w"
  "ticks (snd (dateNow w)) = Suc (ticks w)"
  by (simp_all add: dateNow_def)

lemma freshHandle_simps [simp]:
  "sessions (snd (freshHandle w)) = sessions w"
  "currentSession (snd (freshHandle w)) = currentSession w"
  "fault (snd (freshHandle w)) = fault w"
  by (simp_all add: freshHandle_def)

lemma requireSession_Inr:
  "requireSession w = Inr r \<longleftrightarrow> currentSession w = Some r \<and> page (sessions w r) \<noteq> None"
  by (auto simp: requireSession_def split: option.splits)

subsection \<open>The viewport map\<close>

lemma map_fst_mapDelete: "map fst (mapDelete k m) = filter (\<lambda>x. x \<noteq> k) (map fst m)"
  by (induction m) (auto simp: mapDelete_def)

lemma mapSet_fresh: "k \<notin> set (map fst m) \<Longrightarrow> mapSet k v m = m @ [(k, v)]"
  by (induction m) auto

lemma mapGet_mapDelete: "k' \<noteq> k \<Longrightarrow> mapGet (mapDelete k m) k' = mapGet m k'"
  by (induction m) (auto simp: mapGet_def mapDelete_def)

lemma mapGet_append_fresh:
  "mapGet (m @ [(k, v)]) k' = (case mapGet m k' of Some x \<Rightarrow> Some x | None \<Rightarrow> if k' = k then Some v else None)"
  by (induction m) (auto simp: mapGet_def)

lemma hd_sorted_Min:
  "sorted_wrt (<) (ks::int list) \<Longrightarrow> ks \<noteq> [] \<Longrightarrow> hd ks = Min (set ks)"
proof (cases ks)
  case Nil
  then show "ks \<noteq> [] \<Longrightarrow> hd ks = Min (set ks)" by simp
next
  case (Cons k rest)
  assume "sorted_wrt (<) ks"
  with Cons have "\<forall>x\<in>set rest. k < x" by simp
  then have "Min (insert k (set rest)) = k"
    by (intro Min_eqI) (auto simp: less_imp_le)
  with Cons show "hd ks = Min (set ks)" by simp
qed

subsection \<open>Every operation preserves the invariant\<close>

lemma storeInv_init: "currentSession w = None \<Longrightarrow> storeInv w"
  by (simp add: storeInv_def)

lemma storeInv_cong:
  "sessions w' = sessions w \<Longrightarrow> currentSession w' = currentSession w \<Longrightarrow> storeInv w' = storeInv w"
  by (simp add: storeInv_def split: option.splits)

lemma andThen_pair:
  "andThen (r, w) f = (case r of Inl e \<Rightarrow> (Inl e, w) | Inr x \<Rightarrow> f x w)"
  by (simp add: andThen_def split: sum.splits)

lemma closeBrowser_snd [simp]: "snd (closeBrowser s w) = w"
  by (simp add: closeBrowser_def call_def callIf_def andThen_pair split: sum.splits)

lemma closeBrowser_cases:
  obtains e where "closeBrowser s w = (Inl e, w)" | "closeBrowser s w = (Inr (), w)"
  by (metis closeBrowser_snd old.unit.exhaust prod.collapse sum.exhaust_sel)

lemma storeInv_endSession: "storeInv w \<Longrightarrow> storeInv (snd (endSession w))"
proof (cases "currentSession w")
  case None
  then show ?thesis by (simp add: endSession_def storeInv_def)
next
  case (Some r)
  assume inv: "storeInv w"
  let ?w1 = "updSession r (\<lambda>s. s\<lparr>status := completed\<rparr>) w"
  have inv1: "storeInv ?w1"
    using inv Some by (simp add: storeInv_def sessionInv_def pageIds_def)
  show ?thesis
  proof (cases rule: closeBrowser_cases [of "sessions ?w1 r" ?w1])
    case (1 e)
    then show ?thesis using Some inv1 by (simp add: endSession_def Let_def)
  next
    case 2
    then show ?thesis using Some by (simp add: endSession_def Let_def storeInv_def)
  qed
qed

lemma endSession_current:
  "currentSession (snd (endSession w)) = None \<or> fst (endSession w) \<noteq> Inr None \<and> (\<exists>e. fst (endSession w) = Inl e)"
proof (cases "currentSession w")
  case None
  then show ?thesis by (simp add: endSession_def)
next
  case (Some r)
  let ?w1 = "updSession r (\<lambda>s. s\<lparr>status := completed\<rparr>) w"
  show ?thesis
    by (cases rule: closeBrowser_cases [of "sessions ?w1 r" ?w1])
       (use Some in \<open>simp_all add: endSession_def Let_def\<close>)
qed

lemma launchBrowser_store:
  "sessions (snd (launchBrowser opts w)) = sessions w
   \<and> currentSession (snd (launchBrowser opts w)) = currentSession w"
  by (simp add: launchBrowser_def call_def callIf_def andThen_pair split: sum.splits)

lemma start_tail:
  assumes "currentSession w4 = None" "steps (sessions w4 r) = []" "pages (sessions w4 r) = []"
    "nextPageId (sessions w4 r) = 1" "activePageId (sessions w4 r) = 0"
  shows "storeInv (snd (andThen (launchBrowser opts w4) (\<lambda>p w5.
             andThen (call (Goto (snd (snd p)) url)
                        (updSession r (\<lambda>s. s\<lparr>browser := Some (fst p),
                           browserContext := Some (fst (snd p)), page := Some (snd (snd p)),
                           pages := mapSet 0 (snd (snd p)) (pages s)\<rparr>) w5))
               (\<lambda>_ w7. (Inr r, w7\<lparr>currentSession := Some r\<rparr>)))))"
proof (cases "launchBrowser opts w4")
  case (Pair res w')
  have st: "sessions w' = sessions w4" "currentSession w' = None"
    using launchBrowser_store [of opts w4] Pair assms(1) by simp_all
  show ?thesis
  proof (cases res)
    case (Inl e)
    then show ?thesis using Pair st by (simp add: storeInv_def)
  next
    case (Inr t)
    then show ?thesis
      using Pair st assms
      by (simp add: Let_def split_def call_def andThen_pair storeInv_def
          sessionInv_def pageIds_def mapGet_def split: sum.splits)
  qed
qed

lemma storeInv_startSession:
  assumes "storeInv w" shows "storeInv (snd (startSession input w))"
proof -
  obtain res w1 where m: "(if currentSession w \<noteq> None then endSession w else (Inr None, w)) = (res, w1)"
    by (cases "if currentSession w \<noteq> None then endSession w else (Inr None, w)")
  have inv1: "storeInv w1"
    using assms storeInv_endSession [of w] m by (auto split: if_splits)
  show ?thesis
  proof (cases res)
    case (Inl e)
    then have "startSession input w = (Inl e, w1)"
      unfolding startSession_def m by (simp only: andThen_simps)
    then show ?thesis using inv1 by simp
  next
    case (Inr x)
    have cur: "currentSession w1 = None"
      using Inr endSession_current [of w] m by (auto split: if_splits)
    show ?thesis
      unfolding startSession_def m Inr
      apply (simp only: andThen_simps Let_def split_def)
      apply (rule start_tail)
      using cur apply simp_all
      done
  qed
qed

lemma storeInv_addStep: "storeInv w \<Longrightarrow> storeInv (snd (addStep p w))"
  by (auto simp: addStep_def storeInv_def requireSession_def sessionInv_def pageIds_def withId_def Let_def
      split: option.splits)

lemma keys_fresh: "list_all (\<lambda>k. k < n) ks \<Longrightarrow> (n::int) \<notin> set ks"
  by (auto simp: list_all_iff)

lemma storeInv_newTab: "storeInv w \<Longrightarrow> storeInv (snd (newTab url w))"
proof (cases "requireSession w")
  case (Inl e)
  then show "storeInv w \<Longrightarrow> ?thesis" by (simp add: newTab_def)
next
  case (Inr r)
  assume inv: "storeInv w"
  have cur: "currentSession w = Some r" using Inr by (simp add: requireSession_Inr)
  have sinv: "sessionInv (sessions w r)" using inv cur by (simp add: storeInv_def)
  let ?s = "sessions w r"
  have fresh: "nextPageId ?s \<notin> set (map fst (pages ?s))"
    using sinv keys_fresh [of "nextPageId ?s" "map fst (pages ?s)"] by (simp add: sessionInv_def pageIds_def)
  have new: "sessionInv (?s\<lparr>nextPageId := nextPageId ?s + 1, pages := pages ?s @ [(nextPageId ?s, pg)]\<rparr>)" for pg
    using sinv fresh
    by (auto simp: sessionInv_def pageIds_def sorted_wrt_append list_all_iff mapGet_append_fresh
        split: option.splits)
  show ?thesis
    using Inr cur inv new fresh
    by (simp add: newTab_def Let_def split_def call_def andThen_pair storeInv_def freshHandle_def
        updSession_def mapSet_fresh split: sum.splits)
qed

lemma mapGet_Some_key: "mapGet m k = Some v \<Longrightarrow> k \<in> set (map fst m)"
  by (auto simp: mapGet_def dest: map_of_SomeD intro: rev_image_eqI)

lemma storeInv_switchTab: "storeInv w \<Longrightarrow> storeInv (snd (switchTab k w))"
  by (auto simp: switchTab_def storeInv_def requireSession_def sessionInv_def pageIds_def Let_def
      call_def andThen_pair split: option.splits sum.splits)

lemma sorted_distinct_keys: "sorted_wrt (<) (ks::int list) \<Longrightarrow> distinct ks"
  by (simp add: strict_sorted_iff)

lemma remaining_nonempty:
  assumes "distinct (map fst m)" "mapGet m k = Some v" "length m \<noteq> 1"
  shows "mapDelete k m \<noteq> []"
proof (cases m)
  case Nil
  then show ?thesis using assms(2) by (simp add: mapGet_def)
next
  case (Cons x rest)
  then obtain y rest' where r: "rest = y # rest'"
    using assms(3) by (cases rest) auto
  have "fst x \<noteq> fst y" using assms(1) Cons r by auto
  then have "fst x \<noteq> k \<or> fst y \<noteq> k" by auto
  then show ?thesis using Cons r by (auto simp: mapDelete_def)
qed

lemma mapGet_hd: "m \<noteq> [] \<Longrightarrow> mapGet m (hd (map fst m)) = Some (snd (hd m))"
  by (cases m) (auto simp: mapGet_def)

lemma closeTab_effect:
  assumes req: "requireSession w = Inr r"
    and found: "mapGet (pages (sessions w r)) pageId = Some pg"
    and more: "length (pages (sessions w r)) \<noteq> 1"
    and dist: "distinct (pageIds (sessions w r))"
    and ok: "fault w (ClosePage pg) = None"
  shows "snd (closeTab pageId w) = updSession r (closedSession pageId) w"
proof -
  let ?s = "sessions w r"
  let ?w1 = "updSession r (\<lambda>s. s\<lparr>pages := mapDelete pageId (pages s)\<rparr>) w"
  have ne: "mapDelete pageId (pages ?s) \<noteq> []"
    using remaining_nonempty [of "pages ?s" pageId pg] dist found more by (simp add: pageIds_def)
  have req1: "requireSession ?w1 = Inr r"
    using req by (simp add: requireSession_def split: option.splits if_splits)
  have step: "closeTab pageId w =
      (if activePageId ?s = pageId
       then andThen (switchTab (case pageIds (sessions ?w1 r) of [] \<Rightarrow> None | k # _ \<Rightarrow> Some k) ?w1)
              (\<lambda>_ w2. (Inr (), w2))
       else (Inr (), ?w1))"
    using req found more ok
    by (simp add: closeTab_def call_def extCall_def andThen_pair Let_def)
  show ?thesis
  proof (cases "activePageId ?s = pageId")
    case False
    then show ?thesis by (simp add: step closedSession_def Let_def updSession_def)
  next
    case True
    obtain k v rest where m1: "mapDelete pageId (pages ?s) = (k, v) # rest"
      using ne by (cases "mapDelete pageId (pages ?s)") auto
    have sw: "snd (switchTab (Some k) ?w1)
        = updSession r (\<lambda>s. s\<lparr>activePageId := k, page := Some v\<rparr>) ?w1"
      using req1 m1
      by (simp add: switchTab_def mapGet_def call_def extCall_def andThen_pair Let_def
          split: option.splits sum.splits)
    have "snd (closeTab pageId w) = snd (switchTab (Some k) ?w1)"
      using True m1 by (simp add: step pageIds_def andThen_def split: prod.splits sum.splits)
    then show ?thesis
      using True m1 sw by (simp add: closedSession_def Let_def updSession_def pageIds_def)
  qed
qed

lemma closeTab_unchanged:
  assumes "requireSession w = Inr r"
    and "mapGet (pages (sessions w r)) pageId = None \<or> length (pages (sessions w r)) = 1
         \<or> (\<exists>pg m. mapGet (pages (sessions w r)) pageId = Some pg \<and> fault w (ClosePage pg) = Some m)"
  shows "snd (closeTab pageId w) = w"
  using assms
  by (auto simp: closeTab_def call_def extCall_def andThen_pair split: option.splits)

lemma sessionInv_closed:
  assumes inv: "sessionInv s" and found: "mapGet (pages s) pageId = Some pg"
    and more: "length (pages s) \<noteq> 1"
  shows "sessionInv (closedSession pageId s)"
proof -
  have dist: "distinct (map fst (pages s))"
    using inv sorted_distinct_keys by (simp add: sessionInv_def pageIds_def)
  have ne: "mapDelete pageId (pages s) \<noteq> []"
    using remaining_nonempty [OF dist found more] .
  have srt: "sorted_wrt (<) (map fst (mapDelete pageId (pages s)))"
    using inv by (simp add: sessionInv_def pageIds_def map_fst_mapDelete sorted_wrt_filter)
  have bnd: "list_all (\<lambda>k. k < nextPageId s) (map fst (mapDelete pageId (pages s)))"
    using inv by (auto simp: sessionInv_def pageIds_def map_fst_mapDelete list_all_iff)
  show ?thesis
  proof (cases "activePageId s = pageId")
    case True
    then show ?thesis
      using inv srt bnd ne mapGet_hd [OF ne]
      by (simp add: closedSession_def Let_def sessionInv_def pageIds_def)
  next
    case False
    then show ?thesis
      using inv srt bnd mapGet_mapDelete [of "activePageId s" pageId "pages s"]
      by (simp add: closedSession_def Let_def sessionInv_def pageIds_def)
  qed
qed

lemma storeInv_closeTab: "storeInv w \<Longrightarrow> storeInv (snd (closeTab pageId w))"
proof (cases "requireSession w")
  case (Inl e)
  then show "storeInv w \<Longrightarrow> ?thesis" by (simp add: closeTab_def)
next
  case (Inr r)
  assume inv: "storeInv w"
  have cur: "currentSession w = Some r" using Inr by (simp add: requireSession_Inr)
  have sinv: "sessionInv (sessions w r)" using inv cur by (simp add: storeInv_def)
  show ?thesis
  proof (cases "mapGet (pages (sessions w r)) pageId")
    case None
    then show ?thesis using closeTab_unchanged [OF Inr] inv by simp
  next
    case (Some pg)
    show ?thesis
    proof (cases "length (pages (sessions w r)) = 1 \<or> fault w (ClosePage pg) \<noteq> None")
      case True
      then have "snd (closeTab pageId w) = w"
        using closeTab_unchanged [OF Inr, of pageId] Some by auto
      then show ?thesis using inv by simp
    next
      case False
      have dist: "distinct (pageIds (sessions w r))"
        using sinv sorted_distinct_keys by (simp add: sessionInv_def)
      have "snd (closeTab pageId w) = updSession r (closedSession pageId) w"
        using closeTab_effect [OF Inr Some _ dist] False by simp
      then show ?thesis
        using cur sessionInv_closed [OF sinv Some] False by (simp add: storeInv_def)
    qed
  qed
qed

lemma snd_andThen_same: "(\<And>x w'. snd (f x w') = w') \<Longrightarrow> snd (andThen m f) = snd m"
  by (cases m) (auto simp: andThen_def split: sum.splits)

lemma videoOffset_simps [simp]:
  "sessions (snd (videoOffset s w)) = sessions w"
  "currentSession (snd (videoOffset s w)) = currentSession w"
  by (simp_all add: videoOffset_def)

lemma requireSession_cong:
  "sessions w' = sessions w \<Longrightarrow> currentSession w' = currentSession w \<Longrightarrow> requireSession w' = requireSession w"
  by (simp add: requireSession_def split: option.splits)

lemma addStep_effect:
  assumes "requireSession w = Inr r"
  shows "addStep p w = (Inr (withId p (int (length (steps (sessions w r))) + 1)),
           updSession r (\<lambda>s. s\<lparr>steps := steps s @ [withId p (int (length (steps (sessions w r))) + 1)]\<rparr>) w)"
  using assms by (simp add: addStep_def Let_def)

lemma executeWithEvidence_unfold:
  assumes req: "requireSession w = Inr r"
    and shot: "screenshotOnStep (options (sessions w r)) \<longrightarrow>
         fault w (Screenshot (the (page (sessions w r))) (stepScreenshotPath (sessions w r))) = None"
  shows "executeWithEvidence opts fn w =
     andThen (addStep (recordedStep opts w r (fst (fn (snd (dateNow w)))) (snd (fn (snd (dateNow w)))))
                (afterCallback w r (snd (fn (snd (dateNow w))))))
       (\<lambda>_ w7. case fst (fn (snd (dateNow w))) of
            Inl e \<Rightarrow> (Inl e, w7)
          | Inr result \<Rightarrow> (Inr (if steps (sessions w7 r) = [] then None
                                  else Some (last (steps (sessions w7 r))), result), w7))"
  using req shot
  by (simp add: executeWithEvidence_def Let_def callIf_def call_def extCall_def andThen_pair
      recordedStep_def afterCallback_def)

lemma afterCallback_store [simp]:
  "sessions (afterCallback w r w3) = sessions w3"
  "currentSession (afterCallback w r w3) = currentSession w3"
  by (simp_all add: afterCallback_def Let_def)

lemma storeInv_executeWithEvidence:
  assumes inv: "storeInv w" and sp: "storePreserving fn"
  shows "storeInv (snd (executeWithEvidence opts fn w))"
proof (cases "requireSession w")
  case (Inl e)
  then show ?thesis using inv by (simp add: executeWithEvidence_def)
next
  case (Inr r)
  let ?w1 = "snd (dateNow w)"
  let ?w3 = "snd (fn ?w1)"
  have st3: "sessions ?w3 = sessions w" "currentSession ?w3 = currentSession w"
    using sp by (simp_all add: storePreserving_def)
  show ?thesis
  proof (cases "screenshotOnStep (options (sessions w r)) \<longrightarrow>
         fault w (Screenshot (the (page (sessions w r))) (stepScreenshotPath (sessions w r))) = None")
    case True
    have "snd (executeWithEvidence opts fn w)
        = snd (addStep (recordedStep opts w r (fst (fn ?w1)) ?w3) (afterCallback w r ?w3))"
      unfolding executeWithEvidence_unfold [OF Inr True]
      by (rule snd_andThen_same) (simp split: sum.splits)
    moreover have "storeInv (afterCallback w r ?w3)"
      using inv st3 storeInv_cong [of "afterCallback w r ?w3" w] by simp
    ultimately show ?thesis using storeInv_addStep by simp
  next
    case False
    then have "snd (executeWithEvidence opts fn w) = ?w1"
      using Inr
      by (auto simp: executeWithEvidence_def Let_def callIf_def call_def extCall_def andThen_pair
          split: option.splits)
    then show ?thesis using inv storeInv_cong [of ?w1 w] by simp
  qed
qed

subsection \<open>The invariant holds in every reachable world\<close>

lemma reachable_storeInv: "reachable w \<Longrightarrow> storeInv w"
proof (induction rule: reachable.induct)
  case (r_init w)
  then show ?case by (rule storeInv_init)
next
  case (r_env w c t f h u d)
  then show ?case by (simp add: storeInv_def split: option.splits)
next
  case (r_start w input)
  then show ?case by (simp add: storeInv_startSession)
next
  case (r_end w)
  then show ?case by (simp add: storeInv_endSession)
next
  case (r_addStep w step)
  then show ?case by (simp add: storeInv_addStep)
next
  case (r_newTab w url)
  then show ?case by (simp add: storeInv_newTab)
next
  case (r_switchTab w pageId)
  then show ?case by (simp add: storeInv_switchTab)
next
  case (r_closeTab w pageId)
  then show ?case by (simp add: storeInv_closeTab)
next
  case (r_execute w fn opts)
  then show ?case by (simp add: storeInv_executeWithEvidence)
qed

lemma addStep_requireSession:
  "requireSession w = Inr r \<Longrightarrow> requireSession (snd (addStep p w)) = Inr r"
  by (simp add: addStep_effect requireSession_def split: option.splits if_splits)

lemma addSteps_Cons: "addSteps (p # ps) w = addSteps ps (snd (addStep p w))"
  by (simp add: addSteps_def)

lemma addSteps_effect:
  "requireSession w = Inr r \<Longrightarrow>
   requireSession (addSteps ps w) = Inr r
   \<and> steps (sessions (addSteps ps w) r) = steps (sessions w r)
       @ map (\<lambda>(i, p). withId p (int i + 1)) (enumerate (length (steps (sessions w r))) ps)"
proof (induction ps arbitrary: w)
  case Nil
  then show ?case by (simp add: addSteps_def)
next
  case (Cons p ps)
  have req': "requireSession (snd (addStep p w)) = Inr r"
    using Cons.prems by (rule addStep_requireSession)
  have st: "steps (sessions (snd (addStep p w)) r)
      = steps (sessions w r) @ [withId p (int (length (steps (sessions w r))) + 1)]"
    using Cons.prems by (simp add: addStep_effect)
  show ?case
    using Cons.IH [OF req'] st by (simp add: addSteps_Cons)
qed

lemma reachable_addSteps: "reachable w \<Longrightarrow> reachable (addSteps ps w)"
  by (induction ps arbitrary: w) (simp_all add: addSteps_def r_addStep)

subsection \<open>Step log\<close>

text \<open>
  C2. In every reachable world with an active session, any sequence of appends (whatever
  the success flag of the appended steps) leaves the log as the old log followed by the new
  steps in order, each with the id \<open>len(log) + 1\<close> of the moment it was appended, so no
  earlier step is changed, moved or dropped; and the ids of the whole log are exactly
  \<open>1..N\<close>.
\<close>

theorem step_ids_contiguous:
  assumes reach: "reachable w" and req: "requireSession w = Inr r"
  shows "let old = steps (sessions w r); new = steps (sessions (addSteps ps w) r)
         in new = old @ map (\<lambda>(i, p). withId p (int i + 1)) (enumerate (length old) ps)
            \<and> map step_id new = map int [1..<Suc (length new)]"
proof -
  have eff: "requireSession (addSteps ps w) = Inr r"
    "steps (sessions (addSteps ps w) r) = steps (sessions w r)
       @ map (\<lambda>(i, p). withId p (int i + 1)) (enumerate (length (steps (sessions w r))) ps)"
    using addSteps_effect [OF req, of ps] by simp_all
  have "storeInv (addSteps ps w)"
    using reach by (intro reachable_storeInv reachable_addSteps)
  then have "map step_id (steps (sessions (addSteps ps w) r))
      = map int [1..<Suc (length (steps (sessions (addSteps ps w) r)))]"
    using eff(1) by (simp add: storeInv_def sessionInv_def requireSession_Inr)
  then show ?thesis using eff(2) by (simp add: Let_def)
qed

theorem step_ids_contiguous_witness:
  "reachable demoWorld \<and> requireSession demoWorld = Inr 0
   \<and> (let old = steps (sessions demoWorld 0);
          new = steps (sessions (addSteps [okPartial, failedPartial, okPartial] demoWorld) 0)
      in new = old @ map (\<lambda>(i, p). withId p (int i + 1))
                       (enumerate (length old) [okPartial, failedPartial, okPartial])
         \<and> map step_id new = map int [1..<Suc (length new)])
   \<and> map step_id (steps (sessions (addSteps [okPartial, failedPartial, okPartial] demoWorld) 0)) = [1, 2, 3]
   \<and> map success (steps (sessions (addSteps [okPartial, failedPartial, okPartial] demoWorld) 0))
       = [True, False, True]"
proof -
  have h1: "reachable demoWorld"
    unfolding demoWorld_def by (intro r_start r_init) (simp add: world0_def)
  have h2: "requireSession demoWorld = Inr 0" by code_simp
  have e1: "map step_id (steps (sessions (addSteps [okPartial, failedPartial, okPartial] demoWorld) 0)) = [1, 2, 3]"
    by code_simp
  have e2: "map success (steps (sessions (addSteps [okPartial, failedPartial, okPartial] demoWorld) 0))
       = [True, False, True]"
    by code_simp
  show ?thesis
    using h1 h2 e1 e2 step_ids_contiguous [OF h1 h2, of "[okPartial, failedPartial, okPartial]"] by simp
qed

subsection \<open>Evidence capture\<close>

text \<open>
  C1. When \<open>executeWithEvidence\<close> gets as far as invoking the callback (a session is
  active and the screenshot before the action, if enabled, did not raise) and the session
  is still the active one when the callback is over, exactly one step is appended to its
  log, after whatever the callback itself logged. The step carries the elapsed time between
  the clock readings before and after the callback and the screenshot path; when the
  callback raised, the step has \<open>success = False\<close> and the message of the exception, and
  the same exception is the result of the call, in the world that already holds the step.
\<close>

theorem executeWithEvidence_records_step:
  assumes req: "requireSession w = Inr r"
    and noFault: "screenshotFault w r = None"
    and cb: "fn (snd (dateNow w)) = (outcome, w3)"
    and post: "requireSession w3 = Inr r"
  shows "\<exists>step w'.
     executeWithEvidence opts fn w = ((case outcome of Inl e \<Rightarrow> Inl e | Inr x \<Rightarrow> Inr (Some step, x)), w')
     \<and> steps (sessions w' r) = steps (sessions w3 r) @ [step]
     \<and> success step = (case outcome of Inl _ \<Rightarrow> False | Inr _ \<Rightarrow> True)
     \<and> error step = (case outcome of Inl e \<Rightarrow> Some (message e) | Inr _ \<Rightarrow> None)
     \<and> duration step = clock w3 (ticks w3) - clock w (ticks w)
     \<and> evidence step = \<lparr>screenshotPath = (if screenshotOnStep (options (sessions w r))
                                           then Some (stepScreenshotPath (sessions w r)) else None),
                         beforeSnapshot = None, afterSnapshot = None\<rparr>
     \<and> step_id step = int (length (steps (sessions w3 r))) + 1
     \<and> action step = eo_action opts \<and> description step = eo_description opts"
proof -
  let ?w6 = "afterCallback w r w3"
  let ?p = "recordedStep opts w r outcome w3"
  let ?step = "withId ?p (int (length (steps (sessions w3 r))) + 1)"
  let ?w' = "updSession r (\<lambda>s. s\<lparr>steps := steps s @ [?step]\<rparr>) ?w6"
  have req6: "requireSession ?w6 = Inr r"
    using post requireSession_cong [of ?w6 w3] by simp
  have add: "addStep ?p ?w6 = (Inr ?step, ?w')"
    using addStep_effect [OF req6, of ?p] by simp
  have shot: "screenshotOnStep (options (sessions w r)) \<longrightarrow>
         fault w (Screenshot (the (page (sessions w r))) (stepScreenshotPath (sessions w r))) = None"
    using noFault by (simp add: screenshotFault_def split: if_splits)
  have run: "executeWithEvidence opts fn w =
      ((case outcome of Inl e \<Rightarrow> Inl e | Inr x \<Rightarrow> Inr (Some ?step, x)), ?w')"
    using executeWithEvidence_unfold [OF req shot, of opts fn] cb add
    by (simp split: sum.splits)
  have props: "steps (sessions ?w' r) = steps (sessions w3 r) @ [?step]"
    "success ?step = (case outcome of Inl _ \<Rightarrow> False | Inr _ \<Rightarrow> True)"
    "error ?step = (case outcome of Inl e \<Rightarrow> Some (message e) | Inr _ \<Rightarrow> None)"
    "duration ?step = clock w3 (ticks w3) - clock w (ticks w)"
    "evidence ?step = \<lparr>screenshotPath = (if screenshotOnStep (options (sessions w r))
                                           then Some (stepScreenshotPath (sessions w r)) else None),
                         beforeSnapshot = None, afterSnapshot = None\<rparr>"
    "step_id ?step = int (length (steps (sessions w3 r))) + 1"
    "action ?step = eo_action opts" "description ?step = eo_description opts"
    by (simp_all add: withId_def recordedStep_def Let_def)
  show ?thesis
    using run props by blast
qed

theorem executeWithEvidence_records_step_witness:
  "requireSession demoWorld = Inr 0
   \<and> screenshotFault demoWorld 0 = None
   \<and> failingAction (snd (dateNow demoWorld)) = (Inl (ExtError ''Element not found''), snd (dateNow demoWorld))
   \<and> requireSession (snd (dateNow demoWorld)) = Inr 0
   \<and> (\<exists>step w'.
        executeWithEvidence \<lparr>eo_action = ''click'', eo_description = ''Click the missing button'',
            eo_details = None\<rparr> failingAction demoWorld = (Inl (ExtError ''Element not found''), w')
        \<and> steps (sessions w' 0) = steps (sessions (snd (dateNow demoWorld)) 0) @ [step]
        \<and> success step = False
        \<and> error step = Some ''Element not found'')"
proof -
  have h1: "requireSession demoWorld = Inr 0" by code_simp
  have h2: "screenshotFault demoWorld 0 = None" by code_simp
  have h3: "failingAction (snd (dateNow demoWorld)) = (Inl (ExtError ''Element not found''), snd (dateNow demoWorld))"
    by (simp add: failingAction_def)
  have h4: "requireSession (snd (dateNow demoWorld)) = Inr 0" by code_simp
  show ?thesis
    using h1 h2 h3 h4
      executeWithEvidence_records_step [where fn = failingAction
        and opts = "\<lparr>eo_action = ''click'', eo_description = ''Click the missing button'', eo_details = None\<rparr>",
        OF h1 h2 h3 h4]
    by (auto simp: message_def)
qed

text \<open>
  The last hypothesis is needed. A callback that ends the session leaves no active session
  for \<open>addStep\<close>, whose exception then replaces the outcome of the callback, and no step
  is recorded. No caller in the repository passes such a callback: the tools pass actions
  on the page.
\<close>

lemma executeWithEvidence_session_ended:
  assumes req: "requireSession w = Inr r"
    and noFault: "screenshotFault w r = None"
    and cb: "fn (snd (dateNow w)) = (outcome, w3)"
    and ended: "currentSession w3 = None"
  shows "fst (executeWithEvidence opts fn w) = Inl NoActiveSession
     \<and> sessions (snd (executeWithEvidence opts fn w)) = sessions w3"
proof -
  have shot: "screenshotOnStep (options (sessions w r)) \<longrightarrow>
         fault w (Screenshot (the (page (sessions w r))) (stepScreenshotPath (sessions w r))) = None"
    using noFault by (simp add: screenshotFault_def split: if_splits)
  have "requireSession (afterCallback w r w3) = Inl NoActiveSession"
    using ended by (simp add: requireSession_def)
  then have "addStep p (afterCallback w r w3) = (Inl NoActiveSession, afterCallback w r w3)" for p
    by (simp add: addStep_def)
  then show ?thesis
    using executeWithEvidence_unfold [OF req shot, of opts fn] cb by simp
qed

subsection \<open>Viewport registry\<close>

text \<open>
  C5. Closing the only live viewport of the active session fails with
  \<open>CannotCloseLastTab\<close> and leaves the whole world, the registry included, as it was.
\<close>

theorem closeTab_last_viewport:
  assumes "requireSession w = Inr r" and "pages (sessions w r) = [(pageId, pg)]"
  shows "closeTab pageId w = (Inl CannotCloseLastTab, w)"
  using assms by (simp add: closeTab_def mapGet_def)

theorem closeTab_last_viewport_witness:
  "requireSession demoWorld = Inr 0 \<and> pages (sessions demoWorld 0) = [(0, 2)]
   \<and> closeTab 0 demoWorld = (Inl CannotCloseLastTab, demoWorld)"
proof -
  have h1: "requireSession demoWorld = Inr 0" by code_simp
  have h2: "pages (sessions demoWorld 0) = [(0, 2)]" by code_simp
  show ?thesis using h1 h2 closeTab_last_viewport [OF h1 h2] by simp
qed

text \<open>
  C6. In a reachable world, when the active viewport is closed (it is live, it is not the
  only one, and the browser closes it), the remaining viewports are the others in their
  old order, and the new active id is the minimum of the remaining ids, with the
  session's current page the viewport registered under it.
\<close>

theorem closeTab_active_switches_to_min:
  assumes reach: "reachable w" and req: "requireSession w = Inr r"
    and found: "mapGet (pages (sessions w r)) pageId = Some pg"
    and active: "activePageId (sessions w r) = pageId"
    and more: "length (pages (sessions w r)) \<noteq> 1"
    and ok: "fault w (ClosePage pg) = None"
  shows "let s' = sessions (snd (closeTab pageId w)) r
         in pageIds s' = filter (\<lambda>k. k \<noteq> pageId) (pageIds (sessions w r))
            \<and> pageIds s' \<noteq> []
            \<and> activePageId s' = Min (set (pageIds s'))
            \<and> page s' = mapGet (pages s') (activePageId s')"
proof -
  let ?s = "sessions w r"
  have cur: "currentSession w = Some r" using req by (simp add: requireSession_Inr)
  have sinv: "sessionInv ?s"
    using reachable_storeInv [OF reach] cur by (simp add: storeInv_def)
  have dist: "distinct (pageIds ?s)"
    using sinv sorted_distinct_keys by (simp add: sessionInv_def)
  have eff: "sessions (snd (closeTab pageId w)) r = closedSession pageId ?s"
    using closeTab_effect [OF req found more dist ok] by simp
  have ne: "mapDelete pageId (pages ?s) \<noteq> []"
    using remaining_nonempty [of "pages ?s" pageId pg] dist found more by (simp add: pageIds_def)
  have inv': "sessionInv (closedSession pageId ?s)"
    using sessionInv_closed [OF sinv found more] .
  have ids: "pageIds (closedSession pageId ?s) = filter (\<lambda>k. k \<noteq> pageId) (pageIds ?s)"
    by (simp add: closedSession_def Let_def pageIds_def map_fst_mapDelete)
  have ne': "pageIds (closedSession pageId ?s) \<noteq> []"
    using ne by (simp add: closedSession_def Let_def pageIds_def)
  have act: "activePageId (closedSession pageId ?s) = hd (pageIds (closedSession pageId ?s))"
    using active by (simp add: closedSession_def Let_def pageIds_def)
  have "hd (pageIds (closedSession pageId ?s)) = Min (set (pageIds (closedSession pageId ?s)))"
    using inv' ne' by (intro hd_sorted_Min) (simp_all add: sessionInv_def)
  then show ?thesis
    using eff ids ne' act inv' by (simp add: Let_def sessionInv_def)
qed

theorem closeTab_active_switches_to_min_witness:
  "reachable twoTabWorld \<and> requireSession twoTabWorld = Inr 0
   \<and> mapGet (pages (sessions twoTabWorld 0)) 0 = Some 2
   \<and> activePageId (sessions twoTabWorld 0) = 0
   \<and> length (pages (sessions twoTabWorld 0)) \<noteq> 1
   \<and> fault twoTabWorld (ClosePage 2) = None
   \<and> (let s' = sessions (snd (closeTab 0 twoTabWorld)) 0
      in pageIds s' = filter (\<lambda>k. k \<noteq> 0) (pageIds (sessions twoTabWorld 0))
         \<and> pageIds s' \<noteq> []
         \<and> activePageId s' = Min (set (pageIds s'))
         \<and> page s' = mapGet (pages s') (activePageId s'))"
proof -
  have h1: "reachable twoTabWorld"
    unfolding twoTabWorld_def demoWorld_def
    by (intro r_newTab r_start r_init) (simp add: world0_def)
  have h2: "requireSession twoTabWorld = Inr 0" by code_simp
  have h3: "mapGet (pages (sessions twoTabWorld 0)) 0 = Some 2" by code_simp
  have h4: "activePageId (sessions twoTabWorld 0) = 0" by code_simp
  have h5: "length (pages (sessions twoTabWorld 0)) \<noteq> 1" by code_simp
  have h6: "fault twoTabWorld (ClosePage 2) = None" by code_simp
  show ?thesis
    using h1 h2 h3 h4 h5 h6 closeTab_active_switches_to_min [OF h1 h2 h3 h4 h5 h6] by simp
qed

subsection \<open>Scroll narration\<close>

text \<open>
  C8 at the input \<open>scroll({direction: 'up', amount: 500})\<close>: the tool succeeds and reports
  the direction \<open>up\<close>, but the step it records has no direction in its details, and the
  narration derived from the step says "down".
\<close>

theorem scroll_up_narrated_down:
  "fst (scroll scrollUpInput demoWorld)
     = Inr \<lparr>sr_success = True, sr_stepId = 1, sr_ref = None, sr_direction = up, sr_error = None\<rparr>
   \<and> map stepToNarration (steps (sessions (snd (scroll scrollUpInput demoWorld)) 0))
     = [''Let me scroll down to show you more.'']
   \<and> map (\<lambda>s. d_direction (details s)) (steps (sessions (snd (scroll scrollUpInput demoWorld)) 0))
     = [None]"
  by code_simp

section \<open>Properties of the packager\<close>

subsection \<open>The packager as a sequence of stages\<close>

lemma andThen_assoc:
  "andThen (andThen m f) g = andThen m (\<lambda>x s. andThen (f x s) g)"
  by (cases m) (auto simp: andThen_def split: sum.splits)

lemma andThen_generated_Inr: "andThen (generated (Inr c) fs) k = k c fs"
  by (simp add: generated_def)

lemma package_as_writeAll:
  "packageDeliverables gens session fs =
     andThen (writeAll (textDeliverables gens session) fs) (\<lambda>_ fs. finishPackage gens session fs)"
  by (simp add: packageDeliverables_def textDeliverables_def finishPackage_def Let_def
      andThen_assoc andThen_generated_Inr)

lemma stageOutcome_files [simp]: "stageOutcome (fs\<lparr>files := f\<rparr>) d = stageOutcome fs d"
  by (simp add: stageOutcome_def split: sum.splits)

lemma stageOk_files [simp]: "stageOk (fs\<lparr>files := f\<rparr>) d = stageOk fs d"
  by (simp add: stageOk_def)

lemma writeAll_step_ok:
  "stageOutcome fs d = Inr c \<Longrightarrow>
     writeAll (d # ds) fs = writeAll ds (fs\<lparr>files := (files fs)(fst d := Some c)\<rparr>)
     \<and> written (d # ds) fs = written ds (fs\<lparr>files := (files fs)(fst d := Some c)\<rparr>)"
  by (auto simp: stageOutcome_def generated_def writeFile_def andThen_pair written_def
      split: sum.splits option.splits)

lemma writeAll_step_fail:
  "stageOutcome fs d = Inl e \<Longrightarrow> writeAll (d # ds) fs = (Inl e, fs)"
  by (auto simp: stageOutcome_def generated_def writeFile_def andThen_pair
      split: sum.splits option.splits)

lemma stageOk_Inr: "stageOk fs d \<Longrightarrow> \<exists>c. stageOutcome fs d = Inr c"
  by (simp add: stageOk_def split: sum.splits)

lemma writeAll_fail:
  "i < length ds \<Longrightarrow> stageOutcome fs (ds ! i) = Inl e \<Longrightarrow> list_all (stageOk fs) (take i ds)
   \<Longrightarrow> writeAll ds fs = (Inl e, written (take i ds) fs)"
proof (induction ds arbitrary: i fs)
  case Nil
  then show ?case by simp
next
  case (Cons d ds)
  show ?case
  proof (cases i)
    case 0
    then show ?thesis using Cons.prems by (simp add: writeAll_step_fail written_def del: writeAll.simps)
  next
    case (Suc j)
    then obtain c where c: "stageOutcome fs d = Inr c"
      using Cons.prems(3) stageOk_Inr [of fs d] by auto
    let ?fs = "fs\<lparr>files := (files fs)(fst d := Some c)\<rparr>"
    have "writeAll ds ?fs = (Inl e, written (take j ds) ?fs)"
      using Cons.prems Suc by (intro Cons.IH) simp_all
    then show ?thesis
      using writeAll_step_ok [OF c] Suc by (simp del: writeAll.simps)
  qed
qed

lemma writeAll_ok:
  "list_all (stageOk fs) ds \<Longrightarrow> writeAll ds fs = (Inr (), written ds fs)"
proof (induction ds arbitrary: fs)
  case Nil
  then show ?case by (simp add: written_def)
next
  case (Cons d ds)
  then obtain c where c: "stageOutcome fs d = Inr c"
    using stageOk_Inr [of fs d] by auto
  let ?fs = "fs\<lparr>files := (files fs)(fst d := Some c)\<rparr>"
  have "writeAll ds ?fs = (Inr (), written ds ?fs)"
    using Cons.prems by (intro Cons.IH) simp
  then show ?case using writeAll_step_ok [OF c] by (simp del: writeAll.simps)
qed

lemma no_steps_no_screenshots [simp]: "steps session = [] \<Longrightarrow> availableScreenshots session d fs = []"
  by (simp add: availableScreenshots_def)

lemma package_after_text:
  "list_all (stageOk fs) (textDeliverables gens session) \<Longrightarrow>
     packageDeliverables gens session fs
       = finishPackage gens session (written (textDeliverables gens session) fs)"
  by (simp add: package_as_writeAll writeAll_ok)

lemma written_fields [simp]:
  "writeFault (written ds fs) = writeFault fs" "listing (written ds fs) = listing fs"
  unfolding written_def
  by (induction ds arbitrary: fs) (auto split: sum.splits)

lemma files_written_other:
  "p \<notin> fst ` set ds \<Longrightarrow> files (written ds fs) p = files fs p"
  unfolding written_def
  by (induction ds arbitrary: fs) (auto split: sum.splits)

lemma textDeliverables_paths:
  "map fst (textDeliverables gens session)
     = map (pathJoin (outputDir (options session)))
         [''guide.md'', ''steps.json'', ''narration.txt'', ''subtitles.srt'', ''subtitles.vtt'',
          ''tutorial.html'']"
  by (simp add: textDeliverables_def Let_def)

lemma not_a_text_deliverable:
  "name \<notin> set [''guide.md'', ''steps.json'', ''narration.txt'', ''subtitles.srt'',
                  ''subtitles.vtt'', ''tutorial.html'']
   \<Longrightarrow> files (written (textDeliverables gens session) fs) (pathJoin (outputDir (options session)) name)
       = files fs (pathJoin (outputDir (options session)) name)"
proof -
  assume n: "name \<notin> set [''guide.md'', ''steps.json'', ''narration.txt'', ''subtitles.srt'',
                  ''subtitles.vtt'', ''tutorial.html'']"
  have "fst ` set (textDeliverables gens session) = set (map fst (textDeliverables gens session))"
    by simp
  then have "pathJoin (outputDir (options session)) name \<notin> fst ` set (textDeliverables gens session)"
    using n unfolding textDeliverables_paths by (auto simp: pathJoin_def)
  then show ?thesis by (rule files_written_other)
qed

subsection \<open>Failure of a generator\<close>

lemma failing_stage_1:
  "stageOutcome okFs (textDeliverables failingGens earlyClickSession ! 1)
     = Inl (ExtError ''Converting circular structure to JSON'')"
  by (simp add: textDeliverables_def Let_def failingGens_def demoGens_def stageOutcome_def)

lemma failing_before_1:
  "list_all (stageOk okFs) (take 1 (textDeliverables failingGens earlyClickSession))"
  by (simp add: textDeliverables_def Let_def failingGens_def demoGens_def stageOk_def
      stageOutcome_def okFs_def)

lemma failing_written:
  "written (take 1 (textDeliverables failingGens earlyClickSession)) okFs
     = okFs\<lparr>files := (files okFs)(''out/guide.md'' := Some ''# Log in'')\<rparr>"
  by (simp add: textDeliverables_def Let_def failingGens_def demoGens_def written_def
      earlyClickSession_def demoOptions_def pathJoin_def)

lemma failing_run:
  "packageDeliverables failingGens earlyClickSession okFs
     = (Inl (ExtError ''Converting circular structure to JSON''),
        written (take 1 (textDeliverables failingGens earlyClickSession)) okFs)"
proof -
  have "1 < length (textDeliverables failingGens earlyClickSession)"
    by (simp add: textDeliverables_def Let_def)
  then show ?thesis
    using writeAll_fail [OF _ failing_stage_1 failing_before_1] by (simp add: package_as_writeAll)
qed

text \<open>
  C4, as stated: when one generator fails, the others still run and write their artifacts,
  and a Manifest without the failed path is returned. It fails when the generator of the
  JSON log raises: \<open>packageDeliverables\<close> raises the same exception instead of returning a
  Manifest, the guide written before it is there, and the narration, both subtitle files
  and the tutorial are never written.
\<close>

theorem packaging_aborts_counterexample:
  "generateStepsJson failingGens earlyClickSession
     = Inl (ExtError ''Converting circular structure to JSON'')
   \<and> fst (packageDeliverables failingGens earlyClickSession okFs)
     = Inl (ExtError ''Converting circular structure to JSON'')
   \<and> files (snd (packageDeliverables failingGens earlyClickSession okFs)) ''out/guide.md''
     = Some ''# Log in''
   \<and> files (snd (packageDeliverables failingGens earlyClickSession okFs)) ''out/narration.txt'' = None
   \<and> files (snd (packageDeliverables failingGens earlyClickSession okFs)) ''out/subtitles.srt'' = None
   \<and> files (snd (packageDeliverables failingGens earlyClickSession okFs)) ''out/subtitles.vtt'' = None
   \<and> files (snd (packageDeliverables failingGens earlyClickSession okFs)) ''out/tutorial.html'' = None"
  unfolding failing_run failing_written
  by (simp add: okFs_def failingGens_def)

text \<open>
  C4, amended. The generators of \<open>packageDeliverables\<close> (guide, JSON log, narration text, both
  subtitle formats, tutorial, then the preview) run one after the other with nothing
  catching their exceptions. When the \<open>i\<close>-th text deliverable is the first whose
  generator or write raises, \<open>packageDeliverables\<close> raises that same exception: no Manifest
  is returned, and the file system holds the artifacts of the \<open>i\<close> deliverables before it
  and nothing of the later ones. When the six text deliverables are written and the
  preview generator raises, \<open>packageDeliverables\<close> raises that exception too. Only the
  lookups of the video, the trace and the screenshots directory are isolated: when all
  seven generators succeed a Manifest with the six text artifacts is returned whatever the
  lookups find, without a video path when there is neither \<open>demo.webm\<close> nor a \<open>videos\<close>
  directory, without a trace path when there is no \<open>trace.zip\<close>, and with no assets when
  the \<open>assets\<close> directory cannot be read.
\<close>

theorem generator_failure_aborts_packaging:
  "(i < length (textDeliverables gens session)
      \<and> stageOutcome fs (textDeliverables gens session ! i) = Inl e
      \<and> list_all (stageOk fs) (take i (textDeliverables gens session))
     \<longrightarrow> packageDeliverables gens session fs
           = (Inl e, written (take i (textDeliverables gens session)) fs))
   \<and> (list_all (stageOk fs) (textDeliverables gens session)
      \<and> generateGif gens session (outputDir (options session))
            (written (textDeliverables gens session) fs) = (Inl e, fs')
     \<longrightarrow> packageDeliverables gens session fs = (Inl e, fs'))
   \<and> (list_all (stageOk fs) (textDeliverables gens session)
      \<and> generateGif gens session (outputDir (options session))
            (written (textDeliverables gens session) fs) = (Inr g, fs')
     \<longrightarrow> (\<exists>m. packageDeliverables gens session fs = (Inr m, fs')
            \<and> f_guide (dl_files m) = pathJoin (outputDir (options session)) ''guide.md''
            \<and> f_steps (dl_files m) = pathJoin (outputDir (options session)) ''steps.json''
            \<and> f_narration (dl_files m) = Some (pathJoin (outputDir (options session)) ''narration.txt'')
            \<and> f_subtitleSrt (dl_files m) = Some (pathJoin (outputDir (options session)) ''subtitles.srt'')
            \<and> f_subtitleVtt (dl_files m) = Some (pathJoin (outputDir (options session)) ''subtitles.vtt'')
            \<and> f_tutorial (dl_files m) = Some (pathJoin (outputDir (options session)) ''tutorial.html'')
            \<and> f_video (dl_files m) = findVideo (outputDir (options session)) fs'
            \<and> f_trace (dl_files m) = findTrace (outputDir (options session)) fs'
            \<and> f_assets (dl_files m)
                = collectAssets (pathJoin (outputDir (options session)) ''assets'') fs'
            \<and> (\<not> access (pathJoin (outputDir (options session)) ''demo.webm'') fs'
                 \<and> listing fs' (pathJoin (outputDir (options session)) ''videos'') = None
                \<longrightarrow> f_video (dl_files m) = None)
            \<and> (\<not> access (pathJoin (outputDir (options session)) ''trace.zip'') fs'
                \<longrightarrow> f_trace (dl_files m) = None)
            \<and> (listing fs' (pathJoin (outputDir (options session)) ''assets'') = None
                \<longrightarrow> f_assets (dl_files m) = [])))"
proof (intro conjI impI)
  assume "i < length (textDeliverables gens session)
      \<and> stageOutcome fs (textDeliverables gens session ! i) = Inl e
      \<and> list_all (stageOk fs) (take i (textDeliverables gens session))"
  then show "packageDeliverables gens session fs
           = (Inl e, written (take i (textDeliverables gens session)) fs)"
    using writeAll_fail [of i "textDeliverables gens session" fs e]
    by (simp add: package_as_writeAll)
next
  assume "list_all (stageOk fs) (textDeliverables gens session)
      \<and> generateGif gens session (outputDir (options session))
            (written (textDeliverables gens session) fs) = (Inl e, fs')"
  then show "packageDeliverables gens session fs = (Inl e, fs')"
    by (simp add: package_after_text finishPackage_def Let_def)
next
  assume "list_all (stageOk fs) (textDeliverables gens session)
      \<and> generateGif gens session (outputDir (options session))
            (written (textDeliverables gens session) fs) = (Inr g, fs')"
  then show "\<exists>m. packageDeliverables gens session fs = (Inr m, fs')
            \<and> f_guide (dl_files m) = pathJoin (outputDir (options session)) ''guide.md''
            \<and> f_steps (dl_files m) = pathJoin (outputDir (options session)) ''steps.json''
            \<and> f_narration (dl_files m) = Some (pathJoin (outputDir (options session)) ''narration.txt'')
            \<and> f_subtitleSrt (dl_files m) = Some (pathJoin (outputDir (options session)) ''subtitles.srt'')
            \<and> f_subtitleVtt (dl_files m) = Some (pathJoin (outputDir (options session)) ''subtitles.vtt'')
            \<and> f_tutorial (dl_files m) = Some (pathJoin (outputDir (options session)) ''tutorial.html'')
            \<and> f_video (dl_files m) = findVideo (outputDir (options session)) fs'
            \<and> f_trace (dl_files m) = findTrace (outputDir (options session)) fs'
            \<and> f_assets (dl_files m)
                = collectAssets (pathJoin (outputDir (options session)) ''assets'') fs'
            \<and> (\<not> access (pathJoin (outputDir (options session)) ''demo.webm'') fs'
                 \<and> listing fs' (pathJoin (outputDir (options session)) ''videos'') = None
                \<longrightarrow> f_video (dl_files m) = None)
            \<and> (\<not> access (pathJoin (outputDir (options session)) ''trace.zip'') fs'
                \<longrightarrow> f_trace (dl_files m) = None)
            \<and> (listing fs' (pathJoin (outputDir (options session)) ''assets'') = None
                \<longrightarrow> f_assets (dl_files m) = [])"
    by (simp add: package_after_text finishPackage_def Let_def findVideo_def findTrace_def
        collectAssets_def)
qed

lemma demo_stages_ok:
  "list_all (stageOk fs) (textDeliverables demoGens session)
     = list_all (\<lambda>name. writeFault fs (pathJoin (outputDir (options session)) name) = None)
         [''guide.md'', ''steps.json'', ''narration.txt'', ''subtitles.srt'', ''subtitles.vtt'',
          ''tutorial.html'']"
  by (simp add: textDeliverables_def Let_def demoGens_def stageOk_def stageOutcome_def
      split: option.splits)

lemma shot_available:
  "availableScreenshots shotSession ''out'' (written (textDeliverables demoGens shotSession) previewBrokenFs)
     = [''out/assets/step-001.png'']"
proof -
  have "files (written (textDeliverables demoGens shotSession) previewBrokenFs)
          (pathJoin (outputDir (options shotSession)) ''assets/step-001.png'')
        = files previewBrokenFs (pathJoin (outputDir (options shotSession)) ''assets/step-001.png'')"
    by (rule not_a_text_deliverable) simp
  then have "files (written (textDeliverables demoGens shotSession) previewBrokenFs)
          ''out/assets/step-001.png'' = Some ''PNG''"
    by (simp add: shotSession_def earlyClickSession_def demoOptions_def pathJoin_def
        previewBrokenFs_def)
  then show ?thesis
    by (simp add: availableScreenshots_def shotSession_def truthy_def isAbsolute_def
        pathJoin_def access_def)
qed

lemma preview_raises:
  "generateGif demoGens shotSession (outputDir (options shotSession))
      (written (textDeliverables demoGens shotSession) previewBrokenFs)
     = (Inl (ExtError ''ENOSPC: no space left on device''),
        written (textDeliverables demoGens shotSession) previewBrokenFs)"
proof -
  have out: "outputDir (options shotSession) = ''out''"
    by (simp add: shotSession_def earlyClickSession_def demoOptions_def)
  show ?thesis
    unfolding out generateGif_def Let_def shot_available
    by (simp add: writeFile_def pathJoin_def previewBrokenFs_def)
qed

lemma preview_skipped:
  "generateGif demoGens earlyClickSession (outputDir (options earlyClickSession))
      (written (textDeliverables demoGens earlyClickSession) okFs)
     = (Inr None, written (textDeliverables demoGens earlyClickSession) okFs)"
  by (simp add: generateGif_def Let_def availableScreenshots_def earlyClickSession_def
      clickStep_def truthy_def)

theorem generator_failure_aborts_packaging_witness:
  "1 < length (textDeliverables failingGens earlyClickSession)
   \<and> stageOutcome okFs (textDeliverables failingGens earlyClickSession ! 1)
       = Inl (ExtError ''Converting circular structure to JSON'')
   \<and> list_all (stageOk okFs) (take 1 (textDeliverables failingGens earlyClickSession))
   \<and> packageDeliverables failingGens earlyClickSession okFs
       = (Inl (ExtError ''Converting circular structure to JSON''),
          written (take 1 (textDeliverables failingGens earlyClickSession)) okFs)
   \<and> list_all (stageOk previewBrokenFs) (textDeliverables demoGens shotSession)
   \<and> generateGif demoGens shotSession (outputDir (options shotSession))
        (written (textDeliverables demoGens shotSession) previewBrokenFs)
       = (Inl (ExtError ''ENOSPC: no space left on device''),
          written (textDeliverables demoGens shotSession) previewBrokenFs)
   \<and> packageDeliverables demoGens shotSession previewBrokenFs
       = (Inl (ExtError ''ENOSPC: no space left on device''),
          written (textDeliverables demoGens shotSession) previewBrokenFs)
   \<and> list_all (stageOk okFs) (textDeliverables demoGens earlyClickSession)
   \<and> generateGif demoGens earlyClickSession (outputDir (options earlyClickSession))
        (written (textDeliverables demoGens earlyClickSession) okFs)
       = (Inr None, written (textDeliverables demoGens earlyClickSession) okFs)
   \<and> (\<exists>m. packageDeliverables demoGens earlyClickSession okFs
              = (Inr m, written (textDeliverables demoGens earlyClickSession) okFs)
          \<and> f_guide (dl_files m) = ''out/guide.md''
          \<and> f_tutorial (dl_files m) = Some ''out/tutorial.html''
          \<and> f_video (dl_files m) = None \<and> f_trace (dl_files m) = None
          \<and> f_assets (dl_files m) = [])"
proof -
  have a1: "1 < length (textDeliverables failingGens earlyClickSession)"
    by (simp add: textDeliverables_def Let_def)
  have a: "packageDeliverables failingGens earlyClickSession okFs
       = (Inl (ExtError ''Converting circular structure to JSON''),
          written (take 1 (textDeliverables failingGens earlyClickSession)) okFs)"
    using generator_failure_aborts_packaging
      [of 1 failingGens earlyClickSession okFs "ExtError ''Converting circular structure to JSON''"]
      a1 failing_stage_1 failing_before_1 by blast
  have b1: "list_all (stageOk previewBrokenFs) (textDeliverables demoGens shotSession)"
    by (simp add: demo_stages_ok shotSession_def earlyClickSession_def demoOptions_def
        pathJoin_def previewBrokenFs_def)
  have b: "packageDeliverables demoGens shotSession previewBrokenFs
       = (Inl (ExtError ''ENOSPC: no space left on device''),
          written (textDeliverables demoGens shotSession) previewBrokenFs)"
    using generator_failure_aborts_packaging
      [of _ demoGens shotSession previewBrokenFs "ExtError ''ENOSPC: no space left on device''"
          "written (textDeliverables demoGens shotSession) previewBrokenFs"]
      b1 preview_raises by blast
  have c1: "list_all (stageOk okFs) (textDeliverables demoGens earlyClickSession)"
    by (simp add: demo_stages_ok okFs_def)
  have out: "outputDir (options earlyClickSession) = ''out''"
    by (simp add: earlyClickSession_def demoOptions_def)
  let ?fs = "written (textDeliverables demoGens earlyClickSession) okFs"
  have v: "\<not> access (pathJoin (outputDir (options earlyClickSession)) ''demo.webm'') ?fs"
    "\<not> access (pathJoin (outputDir (options earlyClickSession)) ''trace.zip'') ?fs"
    by (simp_all add: access_def not_a_text_deliverable okFs_def)
  have l: "listing ?fs (pathJoin (outputDir (options earlyClickSession)) ''videos'') = None"
    "listing ?fs (pathJoin (outputDir (options earlyClickSession)) ''assets'') = None"
    by (simp_all add: okFs_def)
  obtain m where m: "packageDeliverables demoGens earlyClickSession okFs = (Inr m, ?fs)"
    "f_guide (dl_files m) = pathJoin (outputDir (options earlyClickSession)) ''guide.md''"
    "f_tutorial (dl_files m) = Some (pathJoin (outputDir (options earlyClickSession)) ''tutorial.html'')"
    "f_video (dl_files m) = None" "f_trace (dl_files m) = None" "f_assets (dl_files m) = []"
    using generator_failure_aborts_packaging
      [of _ demoGens earlyClickSession okFs _ ?fs None]
      c1 preview_skipped v l by blast
  have c: "\<exists>m. packageDeliverables demoGens earlyClickSession okFs = (Inr m, ?fs)
          \<and> f_guide (dl_files m) = ''out/guide.md''
          \<and> f_tutorial (dl_files m) = Some ''out/tutorial.html''
          \<and> f_video (dl_files m) = None \<and> f_trace (dl_files m) = None
          \<and> f_assets (dl_files m) = []"
    using m by (auto simp: out pathJoin_def)
  show ?thesis
    using a1 failing_stage_1 failing_before_1 a b1 preview_raises b c1 preview_skipped c
    by blast
qed

subsection \<open>Summary of an empty log\<close>

text \<open>
  C9. For a session with an empty step log, when no generator and no write raises,
  \<open>packageDeliverables\<close> returns a Manifest, and its summary reports 0 steps, a total
  duration of 0 and a success rate of 1.
\<close>

theorem empty_log_summary:
  assumes empty: "steps session = []"
    and ok: "list_all (stageOk fs) (textDeliverables gens session)"
  shows "\<exists>m fs'. packageDeliverables gens session fs = (Inr m, fs')
     \<and> dl_summary m = \<lparr>totalSteps = 0, totalDuration = 0, successRate = 1\<rparr>"
  using writeAll_ok [OF ok] empty
  by (simp add: package_as_writeAll finishPackage_def generateGif_def Let_def
      sessionSummary_def sumDurations_def)

theorem empty_log_summary_witness:
  "steps emptySession = []
   \<and> list_all (stageOk okFs) (textDeliverables demoGens emptySession)
   \<and> (\<exists>m fs'. packageDeliverables demoGens emptySession okFs = (Inr m, fs')
        \<and> dl_summary m = \<lparr>totalSteps = 0, totalDuration = 0, successRate = 1\<rparr>)"
proof -
  have h1: "steps emptySession = []"
    by (simp add: emptySession_def)
  have h2: "list_all (stageOk okFs) (textDeliverables demoGens emptySession)"
    by (simp add: textDeliverables_def Let_def demoGens_def stageOk_def stageOutcome_def okFs_def)
  show ?thesis
    using h1 h2 empty_log_summary [OF h1 h2] by simp
qed

end
